theory Spec2Isabelle
  imports Main "HOL-Library.Word"
begin

section \<open>Data model (src/execution/types.ts)\<close>

text \<open>
  A JavaScript string is a sequence of 16-bit code units. The strings whose characters
  the code inspects, the value of an evidence entry and the id of an artifact (the
  validator trims them), are modelled as such: \<open>js_string\<close>. All other strings (names,
  identifiers, timestamps, messages) are only compared and concatenated; they are
  modelled as \<^typ>\<open>string\<close>, one \<^typ>\<open>char\<close> per code unit in the range
  U+0000..U+00FF, and \<open>utf16\<close> gives their code units where one of them goes into an
  evidence value. Values of TypeScript type \<open>unknown\<close> that are stored in spans
  (artifact content, metadata) are modelled by a JSON value type.

  Fields keep their names, except where a name is taken or is shared by two interfaces:
  \<open>type\<close> is \<open>span_type\<close>, \<open>artifact_type\<close>, \<open>evidence_type\<close>; \<open>id\<close> and \<open>name\<close> of an
  artifact are \<open>artifact_id\<close> and \<open>artifact_name\<close>; \<open>value\<close> of an evidence entry is
  \<open>evidence_value\<close>; \<open>span_id\<close> of a validation failure is \<open>vf_span_id\<close>.
\<close>

type_synonym js_string = "16 word list"

definition utf16 :: "string \<Rightarrow> js_string" where
  "utf16 s = map of_char s"

datatype json =
    JNull
  | JBool bool
  | JNum int
  | JStr string
  | JArr "json list"
  | JObj "(string \<times> json) list"

datatype SpanType = Core | Repo | Agent

datatype SpanStatus = Running | Completed | Failed

datatype EvidenceType = EvId | EvHash | EvUri

record SpanArtifact =
  artifact_id :: js_string
  artifact_type :: string
  artifact_name :: string
  content :: json
  produced_at :: string

record SpanEvidence =
  evidence_type :: EvidenceType
  evidence_value :: js_string
  description :: string

text \<open>
  \<open>ExecutionSpan\<close> with the extra fields of its subtypes \<open>RepoSpan\<close> (\<open>repo_name\<close>)
  and \<open>AgentSpan\<close> (\<open>agent_name\<close>, \<open>operation\<close>); a field an object does not have
  is \<open>None\<close>. \<open>parent_span_id\<close> and \<open>end_time\<close> are \<open>string | null\<close>.
\<close>

record ExecutionSpan =
  span_id :: string
  parent_span_id :: "string option"
  span_type :: SpanType
  name :: string
  status :: SpanStatus
  start_time :: string
  end_time :: "string option"
  artifacts :: "SpanArtifact list"
  evidence :: "SpanEvidence list"
  failure_reasons :: "string list"
  metadata :: "(string \<times> json) list"
  repo_name :: "string option"
  agent_name :: "string option"
  operation :: "string option"

record ValidationFailure =
  vf_span_id :: string
  rule :: string
  message :: string

record ExecutionGraph =
  spans :: "ExecutionSpan list"

text \<open>
  \<open>CoreExecutionResult\<close>; its field \<open>failure_reasons\<close> is named \<open>core_failure_reasons\<close>
  here, the type of \<open>result\<close> is a parameter.
\<close>

record 'r CoreExecutionResult =
  success :: bool
  core_span_id :: string
  execution_graph :: ExecutionGraph
  validation_failures :: "ValidationFailure list"
  core_failure_reasons :: "string list"
  result :: 'r

record InvocationContext =
  ic_parent_span_id :: string
  ic_core_span_id :: string

section \<open>The environment: identifiers and timestamps\<close>

text \<open>
  \<open>crypto.randomUUID()\<close> and \<open>new Date().toISOString()\<close> are the two effects of the
  execution module; neither is part of the repository. The world holds what they return
  to the module: \<open>uuid_source w n\<close> is the value of its \<open>n\<close>-th call of \<open>randomUUID\<close>,
  \<open>clock_source w n\<close> the value of its \<open>n\<close>-th reading of the clock, and the two counters
  say how many calls it has made. Both sources are arbitrary, so that any identifiers
  and any passage of time, also while a collaborator is awaited, are covered.
\<close>

record world =
  uuid_source :: "nat \<Rightarrow> string"
  clock_source :: "nat \<Rightarrow> string"
  uuid_calls :: nat
  clock_calls :: nat

definition generateSpanId :: "world \<Rightarrow> string \<times> world" where
  "generateSpanId w = (uuid_source w (uuid_calls w), w\<lparr>uuid_calls := Suc (uuid_calls w)\<rparr>)"

definition now :: "world \<Rightarrow> string \<times> world" where
  "now w = (clock_source w (clock_calls w), w\<lparr>clock_calls := Suc (clock_calls w)\<rparr>)"

section \<open>Span factory and lifecycle (src/execution/spans.ts)\<close>

definition createCoreSpan :: "string \<Rightarrow> string option \<Rightarrow> world \<Rightarrow> ExecutionSpan \<times> world" where
  "createCoreSpan nm parentSpanId w =
     (let (sid, w1) = generateSpanId w; (t, w2) = now w1 in
      (\<lparr>span_id = sid, parent_span_id = parentSpanId, span_type = Core, name = nm,
        status = Running, start_time = t, end_time = None, artifacts = [], evidence = [],
        failure_reasons = [], metadata = [], repo_name = None, agent_name = None,
        operation = None\<rparr>, w2))"

definition createRepoSpan :: "string \<Rightarrow> string \<Rightarrow> world \<Rightarrow> ExecutionSpan \<times> world" where
  "createRepoSpan repoName parentSpanId w =
     (let (sid, w1) = generateSpanId w; (t, w2) = now w1 in
      (\<lparr>span_id = sid, parent_span_id = Some parentSpanId, span_type = Repo,
        name = ''repo:'' @ repoName,
        status = Running, start_time = t, end_time = None, artifacts = [], evidence = [],
        failure_reasons = [], metadata = [], repo_name = Some repoName, agent_name = None,
        operation = None\<rparr>, w2))"

definition createAgentSpan ::
  "string \<Rightarrow> string \<Rightarrow> string \<Rightarrow> world \<Rightarrow> ExecutionSpan \<times> world" where
  "createAgentSpan agentName op parentSpanId w =
     (let (sid, w1) = generateSpanId w; (t, w2) = now w1 in
      (\<lparr>span_id = sid, parent_span_id = Some parentSpanId, span_type = Agent,
        name = ''agent:'' @ agentName @ '':'' @ op,
        status = Running, start_time = t, end_time = None, artifacts = [], evidence = [],
        failure_reasons = [], metadata = [], repo_name = None, agent_name = Some agentName,
        operation = Some op\<rparr>, w2))"

definition completeSpan :: "ExecutionSpan \<Rightarrow> world \<Rightarrow> ExecutionSpan \<times> world" where
  "completeSpan span w =
     (let (t, w1) = now w in (span\<lparr>status := Completed, end_time := Some t\<rparr>, w1))"

definition failSpan :: "ExecutionSpan \<Rightarrow> string list \<Rightarrow> world \<Rightarrow> ExecutionSpan \<times> world" where
  "failSpan span reasons w =
     (let (t, w1) = now w in
      (span\<lparr>status := Failed, end_time := Some t,
            failure_reasons := failure_reasons span @ reasons\<rparr>, w1))"

text \<open>
  The artifact handed to \<open>attachArtifact\<close> has no \<open>produced_at\<close>, or an optional one;
  \<open>artifact.produced_at || now()\<close> reads the clock when it is missing or empty.
\<close>

record ArtifactInput =
  in_id :: js_string
  in_type :: string
  in_name :: string
  in_content :: json
  in_produced_at :: "string option"

definition attachArtifact :: "ExecutionSpan \<Rightarrow> ArtifactInput \<Rightarrow> world \<Rightarrow> ExecutionSpan \<times> world" where
  "attachArtifact span artifact w =
     (let (t, w1) = (case in_produced_at artifact of
                       None \<Rightarrow> now w
                     | Some p \<Rightarrow> if p = [] then now w else (p, w));
          fullArtifact = \<lparr>artifact_id = in_id artifact, artifact_type = in_type artifact,
                          artifact_name = in_name artifact, content = in_content artifact,
                          produced_at = t\<rparr>
      in (span\<lparr>artifacts := artifacts span @ [fullArtifact]\<rparr>, w1))"

definition attachEvidence :: "ExecutionSpan \<Rightarrow> SpanEvidence \<Rightarrow> ExecutionSpan" where
  "attachEvidence span ev = span\<lparr>evidence := evidence span @ [ev]\<rparr>"

section \<open>Graph validator (src/execution/validator.ts)\<close>

text \<open>The character \<open>"\<close> of the message templates.\<close>

definition dquote :: string where
  "dquote = [CHR 0x22]"

text \<open>
  \<open>String.prototype.trim\<close> removes white space and line terminators from both ends.
  These are, in ECMAScript: TAB, VT, FF, SPACE, NBSP, U+FEFF and the other code points of
  the Unicode category Zs (U+1680, U+2000 to U+200A, U+202F, U+205F, U+3000), and the line
  terminators LF, CR, U+2028 and U+2029. Each of them is a single code unit.
\<close>

definition js_whitespace :: "16 word \<Rightarrow> bool" where
  "js_whitespace c =
     (c = 0x0009 \<or> c = 0x000A \<or> c = 0x000B \<or> c = 0x000C \<or> c = 0x000D \<or>
      c = 0x0020 \<or> c = 0x00A0 \<or> c = 0x1680 \<or> (0x2000 \<le> c \<and> c \<le> 0x200A) \<or>
      c = 0x2028 \<or> c = 0x2029 \<or> c = 0x202F \<or> c = 0x205F \<or> c = 0x3000 \<or>
      c = 0xFEFF)"

definition js_trim :: "js_string \<Rightarrow> js_string" where
  "js_trim s = rev (dropWhile js_whitespace (rev (dropWhile js_whitespace s)))"

text \<open>The test \<open>!v || v.trim() === ''\<close>.\<close>

definition blank :: "js_string \<Rightarrow> bool" where
  "blank v = (v = [] \<or> js_trim v = [])"

text \<open>
  The indexing loop: \<open>spanMap\<close> by \<open>span_id\<close> (a later span replaces an earlier one
  with the same id), \<open>childrenByParent\<close> by \<open>parent_span_id\<close> when that is truthy
  (neither \<open>null\<close> nor the empty string).
\<close>

definition index_span ::
  "ExecutionSpan \<Rightarrow> (string \<rightharpoonup> ExecutionSpan) \<times> (string \<rightharpoonup> ExecutionSpan list)
     \<Rightarrow> (string \<rightharpoonup> ExecutionSpan) \<times> (string \<rightharpoonup> ExecutionSpan list)" where
  "index_span span maps =
     (let (spanMap, childrenByParent) = maps;
          spanMap' = spanMap(span_id span \<mapsto> span) in
      case parent_span_id span of
        None \<Rightarrow> (spanMap', childrenByParent)
      | Some p \<Rightarrow>
          if p \<noteq> [] then
            (let children = (case childrenByParent p of None \<Rightarrow> [] | Some cs \<Rightarrow> cs)
             in (spanMap', childrenByParent(p \<mapsto> children @ [span])))
          else (spanMap', childrenByParent))"

definition index_spans ::
  "ExecutionSpan list \<Rightarrow> (string \<rightharpoonup> ExecutionSpan) \<times> (string \<rightharpoonup> ExecutionSpan list)" where
  "index_spans ss = fold index_span ss (Map.empty, Map.empty)"

text \<open>\<open>childrenByParent.get(k) || []\<close>\<close>

definition get_children :: "(string \<rightharpoonup> ExecutionSpan list) \<Rightarrow> string \<Rightarrow> ExecutionSpan list" where
  "get_children childrenByParent k = (case childrenByParent k of None \<Rightarrow> [] | Some cs \<Rightarrow> cs)"

definition check_repo :: "(string \<rightharpoonup> ExecutionSpan list) \<Rightarrow> ExecutionSpan \<Rightarrow> ValidationFailure list" where
  "check_repo childrenByParent repoSpan =
     (let agentChildren = filter (\<lambda>s. span_type s = Agent)
                            (get_children childrenByParent (span_id repoSpan)) in
      if agentChildren = [] then
        [\<lparr>vf_span_id = span_id repoSpan, rule = ''repo_must_have_agent_children'',
          message = ''Repo span '' @ dquote @ name repoSpan @ dquote @
                    '' has no agent-level child spans''\<rparr>]
      else [])"

definition check_core :: "(string \<rightharpoonup> ExecutionSpan list) \<Rightarrow> ExecutionSpan \<Rightarrow> ValidationFailure list" where
  "check_core childrenByParent coreSpan =
     (let repoChildren = filter (\<lambda>s. span_type s = Repo)
                           (get_children childrenByParent (span_id coreSpan)) in
      (if repoChildren = [] then
         [\<lparr>vf_span_id = span_id coreSpan, rule = ''core_must_have_repo_children'',
           message = ''Core span '' @ dquote @ name coreSpan @ dquote @
                     '' has no repo-level child spans''\<rparr>]
       else [])
      @ concat (map (check_repo childrenByParent) repoChildren))"

definition check_parent :: "(string \<rightharpoonup> ExecutionSpan) \<Rightarrow> ExecutionSpan \<Rightarrow> ValidationFailure list" where
  "check_parent spanMap span =
     (case parent_span_id span of
        None \<Rightarrow> []
      | Some p \<Rightarrow>
          if p \<noteq> [] \<and> spanMap p = None \<and> span_type span \<noteq> Core then
            [\<lparr>vf_span_id = span_id span, rule = ''valid_parent_reference'',
              message = ''Span '' @ dquote @ name span @ dquote @
                        '' references non-existent parent_span_id '' @ dquote @ p @ dquote\<rparr>]
          else [])"

definition check_self :: "ExecutionSpan \<Rightarrow> ValidationFailure list" where
  "check_self span =
     (if parent_span_id span = Some (span_id span) then
        [\<lparr>vf_span_id = span_id span, rule = ''no_self_reference'',
          message = ''Span '' @ dquote @ name span @ dquote @
                    '' references itself as parent''\<rparr>]
      else [])"

definition check_evidence :: "ExecutionSpan \<Rightarrow> ValidationFailure list" where
  "check_evidence span =
     concat (map (\<lambda>ev. if blank (evidence_value ev) then
        [\<lparr>vf_span_id = span_id span, rule = ''evidence_must_be_verifiable'',
          message = ''Span '' @ dquote @ name span @ dquote @
                    '' has evidence with empty value''\<rparr>]
      else []) (evidence span))"

definition check_artifacts :: "ExecutionSpan \<Rightarrow> ValidationFailure list" where
  "check_artifacts span =
     concat (map (\<lambda>a. if blank (artifact_id a) then
        [\<lparr>vf_span_id = span_id span, rule = ''artifact_must_have_id'',
          message = ''Span '' @ dquote @ name span @ dquote @
                    '' has artifact without stable identifier''\<rparr>]
      else []) (artifacts span))"

definition validateExecutionGraph :: "ExecutionGraph \<Rightarrow> ValidationFailure list" where
  "validateExecutionGraph graph =
     (let (spanMap, childrenByParent) = index_spans (spans graph);
          coreSpans = filter (\<lambda>s. span_type s = Core) (spans graph) in
      if coreSpans = [] then
        [\<lparr>vf_span_id = ''graph'', rule = ''core_span_required'',
          message = ''Execution graph must contain at least one core-level span''\<rparr>]
      else
        concat (map (check_core childrenByParent) coreSpans)
        @ concat (map (check_parent spanMap) (spans graph))
        @ concat (map check_self (spans graph))
        @ concat (map check_evidence (spans graph))
        @ concat (map check_artifacts (spans graph)))"

definition isValidExecutionGraph :: "ExecutionGraph \<Rightarrow> bool" where
  "isValidExecutionGraph graph = (validateExecutionGraph graph = [])"

section \<open>Execution context (src/execution/context.ts)\<close>

text \<open>
  The class \<open>ExecutionContext\<close>: its two private fields. A method takes the context
  and the world and returns them updated.
\<close>

record ExecutionContext =
  coreSpan :: ExecutionSpan
  ctx_spans :: "ExecutionSpan list"

type_synonym ctx_state = "ExecutionContext \<times> world"

definition new_ExecutionContext :: "string \<Rightarrow> string option \<Rightarrow> world \<Rightarrow> ctx_state" where
  "new_ExecutionContext coreName parentSpanId w =
     (let (cs, w1) = createCoreSpan coreName parentSpanId w in
      (\<lparr>coreSpan = cs, ctx_spans = [cs]\<rparr>, w1))"

definition coreSpanId :: "ExecutionContext \<Rightarrow> string" where
  "coreSpanId c = span_id (coreSpan c)"

definition getInvocationContext :: "ExecutionContext \<Rightarrow> InvocationContext" where
  "getInvocationContext c =
     \<lparr>ic_parent_span_id = span_id (coreSpan c), ic_core_span_id = span_id (coreSpan c)\<rparr>"

definition startRepoSpan :: "string \<Rightarrow> ctx_state \<Rightarrow> ExecutionSpan \<times> ctx_state" where
  "startRepoSpan repoName st =
     (let (c, w) = st;
          (span, w1) = createRepoSpan repoName (span_id (coreSpan c)) w in
      (span, (c\<lparr>ctx_spans := ctx_spans c @ [span]\<rparr>, w1)))"

definition startAgentSpan ::
  "string \<Rightarrow> string \<Rightarrow> string \<Rightarrow> ctx_state \<Rightarrow> ExecutionSpan \<times> ctx_state" where
  "startAgentSpan parentRepoSpanId agentName op st =
     (let (c, w) = st;
          (span, w1) = createAgentSpan agentName op parentRepoSpanId w in
      (span, (c\<lparr>ctx_spans := ctx_spans c @ [span]\<rparr>, w1)))"

text \<open>\<open>Array.prototype.findIndex\<close>; \<open>None\<close> stands for its result \<open>-1\<close>.\<close>

fun findIndex :: "('a \<Rightarrow> bool) \<Rightarrow> 'a list \<Rightarrow> nat option" where
  "findIndex P [] = None"
| "findIndex P (x # xs) = (if P x then Some 0 else map_option Suc (findIndex P xs))"

definition updateSpan ::
  "string \<Rightarrow> (ExecutionSpan \<Rightarrow> world \<Rightarrow> ExecutionSpan \<times> world) \<Rightarrow> ctx_state \<Rightarrow> ctx_state" where
  "updateSpan spanId updater st =
     (let (c, w) = st in
      case findIndex (\<lambda>s. span_id s = spanId) (ctx_spans c) of
        None \<Rightarrow> (c, w)
      | Some index \<Rightarrow>
          (let (s', w1) = updater (ctx_spans c ! index) w in
           (c\<lparr>ctx_spans := (ctx_spans c)[index := s']\<rparr>, w1)))"

definition completeRepoSpan :: "string \<Rightarrow> ctx_state \<Rightarrow> ctx_state" where
  "completeRepoSpan spanId st = updateSpan spanId (\<lambda>s. completeSpan s) st"

definition failRepoSpan :: "string \<Rightarrow> string list \<Rightarrow> ctx_state \<Rightarrow> ctx_state" where
  "failRepoSpan spanId reasons st = updateSpan spanId (\<lambda>s. failSpan s reasons) st"

definition completeAgentSpan :: "string \<Rightarrow> ctx_state \<Rightarrow> ctx_state" where
  "completeAgentSpan spanId st = updateSpan spanId (\<lambda>s. completeSpan s) st"

definition failAgentSpan :: "string \<Rightarrow> string list \<Rightarrow> ctx_state \<Rightarrow> ctx_state" where
  "failAgentSpan spanId reasons st = updateSpan spanId (\<lambda>s. failSpan s reasons) st"

definition ingestRepoSpans :: "ExecutionSpan list \<Rightarrow> ctx_state \<Rightarrow> ctx_state" where
  "ingestRepoSpans ss st =
     (let (c, w) = st in (fold (\<lambda>span c'. c'\<lparr>ctx_spans := ctx_spans c' @ [span]\<rparr>) ss c, w))"

text \<open>The artifact of \<open>attachArtifactToSpan\<close> has the four fields \<open>id\<close>, \<open>type\<close>,
  \<open>name\<close>, \<open>content\<close>; the clock is read inside the updater, so only for a span that
  is found.\<close>

definition attachArtifactToSpan :: "string \<Rightarrow> ArtifactInput \<Rightarrow> ctx_state \<Rightarrow> ctx_state" where
  "attachArtifactToSpan spanId artifact st =
     updateSpan spanId
       (\<lambda>s w. let (t, w1) = now w in
          (s\<lparr>artifacts := artifacts s @
              [\<lparr>artifact_id = in_id artifact, artifact_type = in_type artifact,
                artifact_name = in_name artifact, content = in_content artifact,
                produced_at = t\<rparr>]\<rparr>, w1)) st"

definition attachEvidenceToSpan :: "string \<Rightarrow> SpanEvidence \<Rightarrow> ctx_state \<Rightarrow> ctx_state" where
  "attachEvidenceToSpan spanId ev st =
     updateSpan spanId (\<lambda>s w. (s\<lparr>evidence := evidence s @ [ev]\<rparr>, w)) st"

text \<open>Decimal rendering of an array length inside a template string.\<close>

definition digit_char :: "nat \<Rightarrow> char" where
  "digit_char d =
     (if d = 0 then CHR ''0'' else if d = 1 then CHR ''1'' else if d = 2 then CHR ''2''
      else if d = 3 then CHR ''3'' else if d = 4 then CHR ''4'' else if d = 5 then CHR ''5''
      else if d = 6 then CHR ''6'' else if d = 7 then CHR ''7'' else if d = 8 then CHR ''8''
      else CHR ''9'')"

fun string_of_nat :: "nat \<Rightarrow> string" where
  "string_of_nat n =
     (if n < 10 then [digit_char n]
      else string_of_nat (n div 10) @ [digit_char (n mod 10)])"

declare string_of_nat.simps [simp del]

definition format_failure :: "ValidationFailure \<Rightarrow> string" where
  "format_failure f = ''['' @ rule f @ ''] '' @ message f"

definition finalize :: "'r \<Rightarrow> ctx_state \<Rightarrow> 'r CoreExecutionResult \<times> ctx_state" where
  "finalize operationResult st =
     (let (c, w) = st;
          graph = \<lparr>spans = ctx_spans c\<rparr>;
          validationFailures = validateExecutionGraph graph;
          isValid = (validationFailures = []);
          reasons1 = (if \<not> isValid then map format_failure validationFailures else []);
          failedChildren = filter (\<lambda>s. span_id s \<noteq> span_id (coreSpan c) \<and> status s = Failed)
                             (ctx_spans c);
          coreFailureReasons = reasons1 @
            (if length failedChildren > 0
             then [string_of_nat (length failedChildren) @ '' child span(s) failed'']
             else []);
          ok = (coreFailureReasons = []);
          (c', w') = (if ok then updateSpan (span_id (coreSpan c)) (\<lambda>s. completeSpan s) (c, w)
                      else updateSpan (span_id (coreSpan c))
                             (\<lambda>s. failSpan s coreFailureReasons) (c, w));
          finalGraph = \<lparr>spans = ctx_spans c'\<rparr>
      in (\<lparr>success = ok, core_span_id = span_id (coreSpan c), execution_graph = finalGraph,
           validation_failures = validationFailures,
           core_failure_reasons = coreFailureReasons, result = operationResult\<rparr>, (c', w')))"

section \<open>Operation wrappers: executeWithSpans and executeMultiRepoWithSpans\<close>

text \<open>
  A caller-supplied \<open>fn\<close> is called once and awaited; it has no access to the context.
  It is modelled by its outcome: \<open>Inr v\<close> when the promise resolves with \<open>v\<close>, \<open>Inl e\<close>
  when it rejects with the thrown value \<open>e\<close>. A thrown value is an \<open>Error\<close> object with
  its message, or any other value with its \<open>String(...)\<close> rendering.
\<close>

datatype thrown = ErrorObject string | OtherThrown string

fun errorMessage :: "thrown \<Rightarrow> string" where
  "errorMessage (ErrorObject m) = m"
| "errorMessage (OtherThrown s) = s"

definition completion_evidence :: "string \<Rightarrow> string \<Rightarrow> string \<Rightarrow> string \<Rightarrow> SpanEvidence" where
  "completion_evidence repoName agentName op agentSpanId =
     \<lparr>evidence_type = EvId,
      evidence_value = utf16 (repoName @ '':'' @ op @ '':'' @ agentSpanId),
      description = ''Completed '' @ op @ '' via '' @ agentName\<rparr>"

definition agent_failed_reason :: "string \<Rightarrow> string \<Rightarrow> string" where
  "agent_failed_reason agentName errMsg =
     ''Agent '' @ dquote @ agentName @ dquote @ '' failed: '' @ errMsg"

definition executeWithSpans ::
  "string \<Rightarrow> string option \<Rightarrow> string \<Rightarrow> string \<Rightarrow> string \<Rightarrow> (thrown + 'r) \<Rightarrow> world
     \<Rightarrow> ('r option) CoreExecutionResult \<times> world" where
  "executeWithSpans coreName parentSpanId repoName agentName op fn w =
     (let st0 = new_ExecutionContext coreName parentSpanId w;
          (repoSpan, st1) = startRepoSpan repoName st0;
          (agentSpan, st2) = startAgentSpan (span_id repoSpan) agentName op st1;
          (operationResult, st3) =
            (case fn of
               Inr v \<Rightarrow>
                 (Some v,
                  completeRepoSpan (span_id repoSpan)
                    (completeAgentSpan (span_id agentSpan)
                      (attachEvidenceToSpan (span_id agentSpan)
                         (completion_evidence repoName agentName op (span_id agentSpan)) st2)))
             | Inl err \<Rightarrow>
                 (None,
                  failRepoSpan (span_id repoSpan)
                    [agent_failed_reason agentName (errorMessage err)]
                    (failAgentSpan (span_id agentSpan) [errorMessage err] st2)));
          (res, st4) = finalize operationResult st3
      in (res, snd st4))"

record 'u RepoEntry =
  repoName :: string
  agentName :: string
  entry_operation :: string
  fn :: "thrown + 'u"

text \<open>
  One iteration of the \<open>for\<close> loop of \<open>executeMultiRepoWithSpans\<close>. The loop state is the
  context, the world, the array \<open>results\<close> (\<open>None\<close> for the pushed \<open>null\<close>) and the flag
  \<open>hasFailure\<close>.
\<close>

definition multi_repo_step ::
  "'u RepoEntry \<Rightarrow> ctx_state \<times> 'u option list \<times> bool \<Rightarrow> ctx_state \<times> 'u option list \<times> bool" where
  "multi_repo_step repo ls =
     (let (st, results, hasFailure) = ls;
          (repoSpan, st1) = startRepoSpan (repoName repo) st;
          (agentSpan, st2) = startAgentSpan (span_id repoSpan) (agentName repo)
                               (entry_operation repo) st1
      in case fn repo of
           Inr v \<Rightarrow>
             (completeRepoSpan (span_id repoSpan)
                (completeAgentSpan (span_id agentSpan)
                  (attachEvidenceToSpan (span_id agentSpan)
                     (completion_evidence (repoName repo) (agentName repo)
                        (entry_operation repo) (span_id agentSpan)) st2)),
              results @ [Some v], hasFailure)
         | Inl err \<Rightarrow>
             (failRepoSpan (span_id repoSpan)
                [agent_failed_reason (agentName repo) (errorMessage err)]
                (failAgentSpan (span_id agentSpan) [errorMessage err] st2),
              results @ [None], True))"

definition multi_repo_loop ::
  "'u RepoEntry list \<Rightarrow> ctx_state \<times> 'u option list \<times> bool \<Rightarrow> ctx_state \<times> 'u option list \<times> bool" where
  "multi_repo_loop repos ls = fold multi_repo_step repos ls"

text \<open>The aggregator returns a value (\<open>Inr\<close>) or throws (\<open>Inl\<close>).\<close>

definition executeMultiRepoWithSpans ::
  "string \<Rightarrow> string option \<Rightarrow> 'u RepoEntry list \<Rightarrow> ('u option list \<Rightarrow> thrown + 'r) \<Rightarrow> world
     \<Rightarrow> ('r option) CoreExecutionResult \<times> world" where
  "executeMultiRepoWithSpans coreName parentSpanId repos aggregator w =
     (let st0 = new_ExecutionContext coreName parentSpanId w;
          (st1, results, hasFailure) = multi_repo_loop repos (st0, [], False);
          aggregatedResult =
            (if \<not> hasFailure then
               (case aggregator results of Inr v \<Rightarrow> Some v | Inl err \<Rightarrow> None)
             else None);
          (res, st2) = finalize aggregatedResult st1
      in (res, snd st2))"

section \<open>A sample environment for concrete runs\<close>

definition sample_world :: world where
  "sample_world = \<lparr>uuid_source = (\<lambda>n. ''span-'' @ string_of_nat n),
                    clock_source = (\<lambda>n. ''t'' @ string_of_nat n),
                    uuid_calls = 0, clock_calls = 0\<rparr>"

section \<open>Span values obtainable through the Span Model\<close>

text \<open>
  The data-model invariant on failure reasons: \<open>failure_reasons\<close> is empty unless
  \<open>status = failed\<close>.
\<close>

definition reasons_invariant :: "ExecutionSpan \<Rightarrow> bool" where
  "reasons_invariant s = (status s = Failed \<or> failure_reasons s = [])"

text \<open>
  The span values obtainable from a factory function by a finite sequence of
  \<open>completeSpan\<close>, \<open>failSpan\<close>, \<open>attachArtifact\<close> and \<open>attachEvidence\<close>, in any world.
\<close>

inductive obtainable :: "ExecutionSpan \<Rightarrow> bool" where
  ob_core: "obtainable (fst (createCoreSpan nm parent w))"
| ob_repo: "obtainable (fst (createRepoSpan rn parentId w))"
| ob_agent: "obtainable (fst (createAgentSpan an op parentId w))"
| ob_complete: "obtainable s \<Longrightarrow> obtainable (fst (completeSpan s w))"
| ob_fail: "obtainable s \<Longrightarrow> obtainable (fst (failSpan s reasons w))"
| ob_artifact: "obtainable s \<Longrightarrow> obtainable (fst (attachArtifact s a w))"
| ob_evidence: "obtainable s \<Longrightarrow> obtainable (attachEvidence s ev)"

text \<open>
  The same, with \<open>completeSpan\<close> applied only to a span that carries no failure reason.
\<close>

inductive obtainable_unfailed :: "ExecutionSpan \<Rightarrow> bool" where
  ou_core: "obtainable_unfailed (fst (createCoreSpan nm parent w))"
| ou_repo: "obtainable_unfailed (fst (createRepoSpan rn parentId w))"
| ou_agent: "obtainable_unfailed (fst (createAgentSpan an op parentId w))"
| ou_complete: "obtainable_unfailed s \<Longrightarrow> failure_reasons s = []
                  \<Longrightarrow> obtainable_unfailed (fst (completeSpan s w))"
| ou_fail: "obtainable_unfailed s \<Longrightarrow> obtainable_unfailed (fst (failSpan s reasons w))"
| ou_artifact: "obtainable_unfailed s \<Longrightarrow> obtainable_unfailed (fst (attachArtifact s a w))"
| ou_evidence: "obtainable_unfailed s \<Longrightarrow> obtainable_unfailed (attachEvidence s ev)"

text \<open>A core span that is failed with one reason and then completed.\<close>

definition failed_then_completed :: ExecutionSpan where
  "failed_then_completed =
     (let (s0, w0) = createCoreSpan ''core'' None sample_world;
          (s1, w1) = failSpan s0 [''boom''] w0
      in fst (completeSpan s1 w1))"

text \<open>An agent span that gets one evidence entry and is completed.\<close>

definition evidenced_then_completed :: ExecutionSpan where
  "evidenced_then_completed =
     (let (s0, w0) = createAgentSpan ''agent'' ''list'' ''span-p'' sample_world;
          s1 = attachEvidence s0
                 \<lparr>evidence_type = EvId, evidence_value = utf16 ''e-1'', description = ''d''\<rparr>
      in fst (completeSpan s1 w0))"

section \<open>What the validator reports, rule by rule\<close>

text \<open>
  A span has a dangling parent when its \<open>parent_span_id\<close> is a non-empty string that is
  the \<open>span_id\<close> of no span of the graph, and the span is not of type \<open>core\<close>.
\<close>

definition dangling_parent :: "ExecutionGraph \<Rightarrow> ExecutionSpan \<Rightarrow> bool" where
  "dangling_parent g s =
     (case parent_span_id s of
        None \<Rightarrow> False
      | Some p \<Rightarrow> p \<noteq> [] \<and> span_type s \<noteq> Core \<and> p \<notin> span_id ` set (spans g))"

definition parent_failure :: "ExecutionSpan \<Rightarrow> ValidationFailure" where
  "parent_failure s =
     \<lparr>vf_span_id = span_id s, rule = ''valid_parent_reference'',
      message = ''Span '' @ dquote @ name s @ dquote @
                '' references non-existent parent_span_id '' @ dquote @
                (case parent_span_id s of None \<Rightarrow> [] | Some p \<Rightarrow> p) @ dquote\<rparr>"

definition evidence_failure :: "ExecutionSpan \<Rightarrow> ValidationFailure" where
  "evidence_failure s =
     \<lparr>vf_span_id = span_id s, rule = ''evidence_must_be_verifiable'',
      message = ''Span '' @ dquote @ name s @ dquote @ '' has evidence with empty value''\<rparr>"

text \<open>A finished span without attachments, as the validator tests write them.\<close>

definition test_span :: "string \<Rightarrow> string option \<Rightarrow> SpanType \<Rightarrow> string \<Rightarrow> ExecutionSpan" where
  "test_span sid parent ty nm =
     \<lparr>span_id = sid, parent_span_id = parent, span_type = ty, name = nm,
      status = Completed, start_time = ''2026-01-01T00:00:00.000Z'',
      end_time = Some ''2026-01-01T00:00:01.000Z'', artifacts = [], evidence = [],
      failure_reasons = [], metadata = [], repo_name = None, agent_name = None,
      operation = None\<rparr>"

text \<open>A core span and a repo span whose \<open>parent_span_id\<close> is \<open>null\<close>.\<close>

definition null_parent_graph :: ExecutionGraph where
  "null_parent_graph =
     \<lparr>spans = [test_span ''core-1'' None Core ''test-core'',
               test_span ''repo-1'' None Repo ''repo:orphan'']\<rparr>"

text \<open>A core span, a repo span with a dangling parent, and a repo span and an agent
  span with parents in the graph.\<close>

definition orphan_graph :: ExecutionGraph where
  "orphan_graph =
     \<lparr>spans = [test_span ''core-1'' None Core ''test-core'',
               test_span ''repo-1'' (Some ''nonexistent'') Repo ''repo:orphan'',
               test_span ''repo-2'' (Some ''core-1'') Repo ''repo:ok'',
               test_span ''agent-2'' (Some ''repo-2'') Agent ''agent:ok:op'']\<rparr>"

text \<open>A valid chain whose agent span carries an evidence entry with the value of one
  space, and one whose agent span carries an empty value, a value with letters, and a
  value of one ideographic space (U+3000) and one line separator (U+2028).\<close>

definition space_evidence_graph :: ExecutionGraph where
  "space_evidence_graph =
     \<lparr>spans = [test_span ''core-1'' None Core ''test-core'',
               test_span ''repo-1'' (Some ''core-1'') Repo ''repo:test'',
               (test_span ''agent-1'' (Some ''repo-1'') Agent ''agent:test:op'')
                 \<lparr>evidence := [\<lparr>evidence_type = EvId, evidence_value = utf16 '' '',
                                 description = ''one space''\<rparr>]\<rparr>]\<rparr>"

definition empty_evidence_graph :: ExecutionGraph where
  "empty_evidence_graph =
     \<lparr>spans = [test_span ''core-1'' None Core ''test-core'',
               test_span ''repo-1'' (Some ''core-1'') Repo ''repo:test'',
               (test_span ''agent-1'' (Some ''repo-1'') Agent ''agent:test:op'')
                 \<lparr>evidence := [\<lparr>evidence_type = EvId, evidence_value = [],
                                 description = ''empty''\<rparr>,
                                \<lparr>evidence_type = EvHash, evidence_value = utf16 ''abc'',
                                 description = ''ok''\<rparr>,
                                \<lparr>evidence_type = EvUri, evidence_value = [0x3000, 0x2028],
                                 description = ''wide blanks''\<rparr>]\<rparr>]\<rparr>"

section \<open>Contexts that the class can reach\<close>

text \<open>
  The private fields of an \<open>ExecutionContext\<close> change only through its constructor and
  its public methods. \<open>reachable\<close> holds of the states these produce, for any arguments;
  between two calls the world may change in any way.
\<close>

inductive reachable :: "ctx_state \<Rightarrow> bool" where
  r_new: "reachable (new_ExecutionContext coreName parentSpanId w)"
| r_world: "reachable (c, w) \<Longrightarrow> reachable (c, w')"
| r_startRepo: "reachable st \<Longrightarrow> reachable (snd (startRepoSpan rn st))"
| r_startAgent: "reachable st \<Longrightarrow> reachable (snd (startAgentSpan parentId an op st))"
| r_completeRepo: "reachable st \<Longrightarrow> reachable (completeRepoSpan spanId st)"
| r_failRepo: "reachable st \<Longrightarrow> reachable (failRepoSpan spanId reasons st)"
| r_completeAgent: "reachable st \<Longrightarrow> reachable (completeAgentSpan spanId st)"
| r_failAgent: "reachable st \<Longrightarrow> reachable (failAgentSpan spanId reasons st)"
| r_ingest: "reachable st \<Longrightarrow> reachable (ingestRepoSpans ss st)"
| r_artifact: "reachable st \<Longrightarrow> reachable (attachArtifactToSpan spanId artifact st)"
| r_evidence: "reachable st \<Longrightarrow> reachable (attachEvidenceToSpan spanId ev st)"
| r_finalize: "reachable st \<Longrightarrow> reachable (snd (finalize () st))"

text \<open>The first recorded span is the context's core span.\<close>

definition core_first :: "ExecutionContext \<Rightarrow> bool" where
  "core_first c =
     (ctx_spans c \<noteq> [] \<and> span_id (hd (ctx_spans c)) = span_id (coreSpan c)
      \<and> span_type (hd (ctx_spans c)) = Core)"

text \<open>
  What \<open>finalize\<close> computes from a context: the spans it counts as failed children (by
  \<open>span_id\<close>, whatever their type), its list of reasons, and the core span after its
  transition at the time the clock shows.
\<close>

definition other_failed_spans :: "ExecutionContext \<Rightarrow> ExecutionSpan list" where
  "other_failed_spans c =
     filter (\<lambda>s. span_id s \<noteq> span_id (coreSpan c) \<and> status s = Failed) (ctx_spans c)"

definition core_level_reasons :: "ExecutionContext \<Rightarrow> string list" where
  "core_level_reasons c =
     map format_failure (validateExecutionGraph \<lparr>spans = ctx_spans c\<rparr>)
     @ (if other_failed_spans c = [] then []
        else [string_of_nat (length (other_failed_spans c)) @ '' child span(s) failed''])"

definition finalized_core :: "ExecutionContext \<Rightarrow> world \<Rightarrow> ExecutionSpan" where
  "finalized_core c w =
     (if core_level_reasons c = [] then
        (hd (ctx_spans c))\<lparr>status := Completed,
                            end_time := Some (clock_source w (clock_calls w))\<rparr>
      else
        (hd (ctx_spans c))\<lparr>status := Failed,
                            end_time := Some (clock_source w (clock_calls w)),
                            failure_reasons :=
                              failure_reasons (hd (ctx_spans c)) @ core_level_reasons c\<rparr>)"

text \<open>
  The context of the failure test: a repo span and its agent span, both failed.
\<close>

definition failed_agent_state :: ctx_state where
  "failed_agent_state =
     (let st0 = new_ExecutionContext ''ecosystem-core'' None sample_world;
          (repoSpan, st1) = startRepoSpan ''analytics'' st0;
          (agentSpan, st2) = startAgentSpan (span_id repoSpan) ''analytics-agent''
                               ''get_metrics'' st1
      in failRepoSpan (span_id repoSpan) [''Agent failed'']
           (failAgentSpan (span_id agentSpan) [''Connection timeout''] st2))"

text \<open>
  A context with a completed repo and agent span that has ingested a sub-graph produced
  elsewhere: a failed span of type \<open>core\<close> with its own repo and agent span.
\<close>

definition foreign_core_state :: ctx_state where
  "foreign_core_state =
     (let st0 = new_ExecutionContext ''ecosystem-core'' None sample_world;
          (repoSpan, st1) = startRepoSpan ''marketplace'' st0;
          (agentSpan, st2) = startAgentSpan (span_id repoSpan) ''marketplace-agent''
                               ''list'' st1
      in ingestRepoSpans
           [(test_span ''core-x'' None Core ''other-core'')
              \<lparr>status := Failed, failure_reasons := [''gave up'']\<rparr>,
            test_span ''repo-x'' (Some ''core-x'') Repo ''repo:other'',
            test_span ''agent-x'' (Some ''repo-x'') Agent ''agent:other:op'']
           (completeRepoSpan (span_id repoSpan)
              (completeAgentSpan (span_id agentSpan) st2)))"

section \<open>The place of a span in the graph\<close>

text \<open>
  The fields of a span that no lifecycle operation changes: type, identifier, parent and
  the names of the subtypes.
\<close>

type_synonym span_shape =
  "SpanType \<times> string \<times> string option \<times> string option \<times> string option \<times> string option"

definition shape :: "ExecutionSpan \<Rightarrow> span_shape" where
  "shape s = (span_type s, span_id s, parent_span_id s, repo_name s, agent_name s, operation s)"

fun sh_type :: "span_shape \<Rightarrow> SpanType" where
  "sh_type (ty, sid, par, rn, an, op) = ty"

fun sh_id :: "span_shape \<Rightarrow> string" where
  "sh_id (ty, sid, par, rn, an, op) = sid"

fun sh_parent :: "span_shape \<Rightarrow> string option" where
  "sh_parent (ty, sid, par, rn, an, op) = par"

text \<open>
  The repo and agent spans of the entries in the order supplied, with \<open>cid\<close> the core
  span's identifier and \<open>U u\<close>, \<open>U (u + 1)\<close>, ... the identifiers generated next.
\<close>

fun entry_shapes :: "string \<Rightarrow> (nat \<Rightarrow> string) \<Rightarrow> nat \<Rightarrow> 'u RepoEntry list \<Rightarrow> span_shape list" where
  "entry_shapes cid U u [] = []"
| "entry_shapes cid U u (e # es) =
     (Repo, U u, Some cid, Some (repoName e), None, None)
     # (Agent, U (Suc u), Some (U u), None, Some (agentName e), Some (entry_operation e))
     # entry_shapes cid U (Suc (Suc u)) es"

text \<open>What the identifier bookkeeping of a state consists of.\<close>

definition ids_view ::
  "ctx_state \<Rightarrow> span_shape list \<times> ExecutionSpan \<times> (nat \<Rightarrow> string) \<times> nat" where
  "ids_view st =
     (map shape (ctx_spans (fst st)), coreSpan (fst st), uuid_source (snd st), uuid_calls (snd st))"

text \<open>The three collaborators of \<open>ecosystem.overview\<close>, the second one failing.\<close>

definition overview_entries :: "string RepoEntry list" where
  "overview_entries =
     [\<lparr>repoName = ''analytics'', agentName = ''analytics-agent'',
       entry_operation = ''get_metrics'', fn = Inr ''metrics''\<rparr>,
      \<lparr>repoName = ''marketplace'', agentName = ''marketplace-agent'',
       entry_operation = ''list_artifacts'', fn = Inl (ErrorObject ''Connection refused'')\<rparr>,
      \<lparr>repoName = ''benchmark'', agentName = ''benchmark-agent'',
       entry_operation = ''list_benchmarks'', fn = Inr ''benchmarks''\<rparr>]"

text \<open>An aggregator that counts the results.\<close>

definition count_aggregator :: "string option list \<Rightarrow> thrown + nat" where
  "count_aggregator results = Inr (length results)"

section \<open>A run with fresh identifiers\<close>

text \<open>
  \<open>randomUUID\<close> is not part of the repository. Where a property of a wrapper depends on
  it, the identifiers it returns next are taken to be non-empty and pairwise distinct,
  as UUIDs are: \<open>fresh_ids w n\<close> says so of the next \<open>n\<close> identifiers.
\<close>

definition fresh_ids :: "world \<Rightarrow> nat \<Rightarrow> bool" where
  "fresh_ids w n =
     (distinct (map (uuid_source w) [uuid_calls w ..< uuid_calls w + n])
      \<and> [] \<notin> set (map (uuid_source w) [uuid_calls w ..< uuid_calls w + n]))"

text \<open>The entry pushed on \<open>results\<close> for a collaborator.\<close>

definition entry_result :: "'u RepoEntry \<Rightarrow> 'u option" where
  "entry_result e = (case fn e of Inr v \<Rightarrow> Some v | Inl err \<Rightarrow> None)"

text \<open>
  The repo span and the agent span of an entry once the entry is processed: completed,
  the agent span with its evidence, when \<open>fn\<close> resolved; failed with their reasons when
  it threw. \<open>t0\<close> is the time of creation and \<open>t1\<close> the time of the transition.
\<close>

definition finished_repo_span ::
  "'u RepoEntry \<Rightarrow> string \<Rightarrow> string \<Rightarrow> string \<Rightarrow> string \<Rightarrow> ExecutionSpan" where
  "finished_repo_span e coreId sid t0 t1 =
     \<lparr>span_id = sid, parent_span_id = Some coreId, span_type = Repo,
      name = ''repo:'' @ repoName e,
      status = (case fn e of Inr v \<Rightarrow> Completed | Inl err \<Rightarrow> Failed),
      start_time = t0, end_time = Some t1, artifacts = [], evidence = [],
      failure_reasons =
        (case fn e of Inr v \<Rightarrow> []
         | Inl err \<Rightarrow> [agent_failed_reason (agentName e) (errorMessage err)]),
      metadata = [], repo_name = Some (repoName e), agent_name = None, operation = None\<rparr>"

definition finished_agent_span ::
  "'u RepoEntry \<Rightarrow> string \<Rightarrow> string \<Rightarrow> string \<Rightarrow> string \<Rightarrow> ExecutionSpan" where
  "finished_agent_span e repoId sid t0 t1 =
     \<lparr>span_id = sid, parent_span_id = Some repoId, span_type = Agent,
      name = ''agent:'' @ agentName e @ '':'' @ entry_operation e,
      status = (case fn e of Inr v \<Rightarrow> Completed | Inl err \<Rightarrow> Failed),
      start_time = t0, end_time = Some t1, artifacts = [],
      evidence =
        (case fn e of
           Inr v \<Rightarrow> [completion_evidence (repoName e) (agentName e) (entry_operation e) sid]
         | Inl err \<Rightarrow> []),
      failure_reasons = (case fn e of Inr v \<Rightarrow> [] | Inl err \<Rightarrow> [errorMessage err]),
      metadata = [], repo_name = None, agent_name = Some (agentName e),
      operation = Some (entry_operation e)\<rparr>"

text \<open>
  The finished spans of all entries, in order: an entry takes two identifiers, \<open>U u\<close> and
  \<open>U (u + 1)\<close>, and four readings of the clock, \<open>T t\<close> to \<open>T (t + 3)\<close>.
\<close>

fun finished_pairs ::
  "string \<Rightarrow> (nat \<Rightarrow> string) \<Rightarrow> (nat \<Rightarrow> string) \<Rightarrow> nat \<Rightarrow> nat \<Rightarrow> 'u RepoEntry list
     \<Rightarrow> ExecutionSpan list" where
  "finished_pairs cid U T u t [] = []"
| "finished_pairs cid U T u t (e # es) =
     finished_repo_span e cid (U u) (T t) (T (t + 3))
     # finished_agent_span e (U u) (U (Suc u)) (T (Suc t)) (T (t + 2))
     # finished_pairs cid U T (u + 2) (t + 4) es"

text \<open>Three collaborators that all resolve, and an aggregator that throws.\<close>

definition resolving_entries :: "string RepoEntry list" where
  "resolving_entries =
     [\<lparr>repoName = ''analytics'', agentName = ''analytics-agent'',
       entry_operation = ''get_metrics'', fn = Inr ''metrics''\<rparr>,
      \<lparr>repoName = ''marketplace'', agentName = ''marketplace-agent'',
       entry_operation = ''list_artifacts'', fn = Inr ''artifacts''\<rparr>,
      \<lparr>repoName = ''benchmark'', agentName = ''benchmark-agent'',
       entry_operation = ''list_benchmarks'', fn = Inr ''benchmarks''\<rparr>]"

definition throwing_aggregator :: "string option list \<Rightarrow> thrown + nat" where
  "throwing_aggregator results = Inl (ErrorObject ''aggregation failed'')"

text \<open>No collaborator at all, as \<open>ecosystem.insights([])\<close> passes.\<close>

definition no_entries :: "string RepoEntry list" where
  "no_entries = []"

section \<open>Updating a span by identifier\<close>

lemmas run_defs =
  sample_world_def string_of_nat.simps digit_char_def generateSpanId_def now_def
  createCoreSpan_def createRepoSpan_def createAgentSpan_def completeSpan_def failSpan_def
  attachArtifact_def attachEvidence_def new_ExecutionContext_def startRepoSpan_def
  startAgentSpan_def updateSpan_def completeRepoSpan_def failRepoSpan_def
  completeAgentSpan_def failAgentSpan_def attachArtifactToSpan_def attachEvidenceToSpan_def
  ingestRepoSpans_def

lemma findIndex_None_iff: "findIndex P xs = None \<longleftrightarrow> (\<forall>x\<in>set xs. \<not> P x)"
  by (induction xs) auto

lemma updateSpan_absent:
  assumes "spanId \<notin> span_id ` set (ctx_spans c)"
  shows "updateSpan spanId u (c, w) = (c, w)"
proof -
  from assms have "findIndex (\<lambda>s. span_id s = spanId) (ctx_spans c) = None"
    by (auto simp: findIndex_None_iff)
  then show ?thesis by (simp add: updateSpan_def)
qed

text \<open>
  C10. When no recorded span carries the given identifier, each of \<open>completeRepoSpan\<close>,
  \<open>failRepoSpan\<close>, \<open>completeAgentSpan\<close>, \<open>failAgentSpan\<close>, \<open>attachArtifactToSpan\<close> and
  \<open>attachEvidenceToSpan\<close> returns the context as it was: the span collection is
  unchanged, and so are the core span and the world (not even the clock is read). None
  of the six methods has a \<open>throw\<close>; the model has no error result for them.
\<close>

theorem absent_span_id_is_noop:
  assumes "spanId \<notin> span_id ` set (ctx_spans c)"
  shows "completeRepoSpan spanId (c, w) = (c, w)
       \<and> failRepoSpan spanId reasons (c, w) = (c, w)
       \<and> completeAgentSpan spanId (c, w) = (c, w)
       \<and> failAgentSpan spanId reasons (c, w) = (c, w)
       \<and> attachArtifactToSpan spanId artifact (c, w) = (c, w)
       \<and> attachEvidenceToSpan spanId ev (c, w) = (c, w)"
  using assms
  by (simp add: completeRepoSpan_def failRepoSpan_def completeAgentSpan_def failAgentSpan_def
      attachArtifactToSpan_def attachEvidenceToSpan_def updateSpan_absent)

theorem absent_span_id_is_noop_witness:
  "''missing'' \<notin> span_id ` set (ctx_spans (fst (new_ExecutionContext ''core'' None sample_world)))
   \<and> completeRepoSpan ''missing'' (new_ExecutionContext ''core'' None sample_world)
       = new_ExecutionContext ''core'' None sample_world
   \<and> failRepoSpan ''missing'' [''boom''] (new_ExecutionContext ''core'' None sample_world)
       = new_ExecutionContext ''core'' None sample_world
   \<and> attachEvidenceToSpan ''missing''
        \<lparr>evidence_type = EvId, evidence_value = utf16 ''e-1'', description = ''d''\<rparr>
        (new_ExecutionContext ''core'' None sample_world)
       = new_ExecutionContext ''core'' None sample_world"
proof -
  have h: "''missing'' \<notin> span_id ` set (ctx_spans (fst (new_ExecutionContext ''core'' None sample_world)))"
    by (simp add: run_defs)
  from absent_span_id_is_noop [OF h, of "snd (new_ExecutionContext ''core'' None sample_world)"] h
  show ?thesis by simp
qed

section \<open>The failure-reasons invariant of span values\<close>

lemma status_completeSpan [simp]: "status (fst (completeSpan s w)) = Completed"
  by (simp add: completeSpan_def now_def)

lemma failure_reasons_completeSpan [simp]:
  "failure_reasons (fst (completeSpan s w)) = failure_reasons s"
  by (simp add: completeSpan_def now_def)

lemma status_failSpan [simp]: "status (fst (failSpan s reasons w)) = Failed"
  by (simp add: failSpan_def now_def)

lemma attachArtifact_keeps [simp]:
  "status (fst (attachArtifact s a w)) = status s"
  "failure_reasons (fst (attachArtifact s a w)) = failure_reasons s"
  by (simp_all add: attachArtifact_def split_def Let_def)

lemma attachEvidence_keeps [simp]:
  "status (attachEvidence s ev) = status s"
  "failure_reasons (attachEvidence s ev) = failure_reasons s"
  by (simp_all add: attachEvidence_def)

lemma factories_no_reasons [simp]:
  "failure_reasons (fst (createCoreSpan nm parent w)) = []"
  "failure_reasons (fst (createRepoSpan rn parentId w)) = []"
  "failure_reasons (fst (createAgentSpan an op parentId w)) = []"
  by (simp_all add: createCoreSpan_def createRepoSpan_def createAgentSpan_def
      generateSpanId_def now_def)

text \<open>
  C7, counterexample. \<open>failSpan\<close> with a reason followed by \<open>completeSpan\<close> is a sequence
  of Span Model operations from a factory value; its result has status \<open>completed\<close> and
  still carries the reason, so the invariant fails for an obtainable span, and
  \<open>completeSpan\<close> applied to an obtainable span does not always re-establish it.
\<close>

theorem completeSpan_keeps_reasons_counterexample:
  "obtainable failed_then_completed \<and> \<not> reasons_invariant failed_then_completed"
proof -
  have "obtainable failed_then_completed"
    unfolding failed_then_completed_def split_def Let_def
    by (intro obtainable.ob_complete obtainable.ob_fail obtainable.ob_core)
  moreover have "\<not> reasons_invariant failed_then_completed"
    by (simp add: failed_then_completed_def reasons_invariant_def run_defs)
  ultimately show ?thesis by simp
qed

text \<open>
  C7, as amended. Every span value obtainable from a factory function by a finite
  sequence of Span Model operations in which \<open>completeSpan\<close> is applied only to spans
  whose \<open>failure_reasons\<close> is empty satisfies the invariant; and \<open>completeSpan\<close> applied to
  any span yields a span satisfying the invariant exactly when that span has no failure
  reason.
\<close>

theorem unfailed_spans_satisfy_reasons_invariant:
  "(obtainable_unfailed s \<longrightarrow> reasons_invariant s)
   \<and> (reasons_invariant (fst (completeSpan s' w)) \<longleftrightarrow> failure_reasons s' = [])"
proof
  show "obtainable_unfailed s \<longrightarrow> reasons_invariant s"
  proof
    assume "obtainable_unfailed s"
    then show "reasons_invariant s"
    proof (induction rule: obtainable_unfailed.induct)
      case (ou_complete s w)
      then show ?case by (simp add: reasons_invariant_def)
    next
      case (ou_fail s reasons w)
      show ?case by (simp add: reasons_invariant_def)
    qed (simp_all add: reasons_invariant_def)
  qed
  show "reasons_invariant (fst (completeSpan s' w)) \<longleftrightarrow> failure_reasons s' = []"
    by (simp add: reasons_invariant_def)
qed

theorem unfailed_spans_satisfy_reasons_invariant_witness:
  "obtainable_unfailed evidenced_then_completed
   \<and> reasons_invariant evidenced_then_completed
   \<and> status evidenced_then_completed = Completed"
proof -
  have ob: "obtainable_unfailed evidenced_then_completed"
    unfolding evidenced_then_completed_def split_def Let_def
    by (intro obtainable_unfailed.ou_complete obtainable_unfailed.ou_evidence
        obtainable_unfailed.ou_agent) simp
  from unfailed_spans_satisfy_reasons_invariant [of evidenced_then_completed] ob
  have "reasons_invariant evidenced_then_completed" by simp
  with ob show ?thesis by (simp add: evidenced_then_completed_def split_def Let_def)
qed

section \<open>The validator\<close>

lemmas validator_defs =
  validateExecutionGraph_def index_spans_def index_span_def get_children_def check_core_def
  check_repo_def check_parent_def check_self_def check_evidence_def check_artifacts_def
  blank_def js_trim_def js_whitespace_def utf16_def dquote_def test_span_def

lemma fold_index_span_fst:
  "fst (fold index_span ss (m, cbp)) k = None \<longleftrightarrow> m k = None \<and> k \<notin> span_id ` set ss"
proof (induction ss arbitrary: m cbp)
  case Nil
  then show ?case by simp
next
  case (Cons s ss)
  obtain m' cbp' where step: "index_span s (m, cbp) = (m', cbp')"
    by (cases "index_span s (m, cbp)")
  then have m': "m' = m(span_id s \<mapsto> s)"
    by (auto simp: index_span_def Let_def split: option.splits if_splits)
  from step have "fst (fold index_span (s # ss) (m, cbp)) k
                    = fst (fold index_span ss (m', cbp')) k"
    by simp
  then show ?case by (auto simp: Cons.IH m')
qed

lemma spanMap_has: "fst (index_spans ss) k = None \<longleftrightarrow> k \<notin> span_id ` set ss"
  by (simp add: index_spans_def fold_index_span_fst)

lemma validate_with_core:
  assumes "\<exists>s\<in>set (spans g). span_type s = Core"
  shows "validateExecutionGraph g =
           concat (map (check_core (snd (index_spans (spans g))))
                     (filter (\<lambda>s. span_type s = Core) (spans g)))
           @ concat (map (check_parent (fst (index_spans (spans g)))) (spans g))
           @ concat (map check_self (spans g))
           @ concat (map check_evidence (spans g))
           @ concat (map check_artifacts (spans g))"
proof -
  from assms have "filter (\<lambda>s. span_type s = Core) (spans g) \<noteq> []"
    by (simp add: filter_empty_conv)
  then show ?thesis
    by (simp add: validateExecutionGraph_def split_def Let_def)
qed

lemma filter_concat_map_none:
  assumes "\<And>x f. x \<in> set xs \<Longrightarrow> f \<in> set (h x) \<Longrightarrow> \<not> P f"
  shows "filter P (concat (map h xs)) = []"
  using assms by (auto simp: filter_empty_conv)

lemma rules_check_repo:
  "f \<in> set (check_repo cbp s) \<Longrightarrow> rule f = ''repo_must_have_agent_children''"
  by (auto simp: check_repo_def Let_def split: if_splits)

lemma rules_check_core:
  "f \<in> set (check_core cbp s) \<Longrightarrow>
     rule f = ''core_must_have_repo_children'' \<or> rule f = ''repo_must_have_agent_children''"
  by (auto simp: check_core_def Let_def dest: rules_check_repo split: if_splits)

lemma rules_check_parent:
  "f \<in> set (check_parent m s) \<Longrightarrow> rule f = ''valid_parent_reference''"
  by (auto simp: check_parent_def split: option.splits if_splits)

lemma rules_check_self:
  "f \<in> set (check_self s) \<Longrightarrow> rule f = ''no_self_reference''"
  by (auto simp: check_self_def split: if_splits)

lemma rules_check_evidence:
  "f \<in> set (check_evidence s) \<Longrightarrow> rule f = ''evidence_must_be_verifiable''"
  by (auto simp: check_evidence_def split: if_splits)

lemma rules_check_artifacts:
  "f \<in> set (check_artifacts s) \<Longrightarrow> rule f = ''artifact_must_have_id''"
  by (auto simp: check_artifacts_def split: if_splits)

lemma filter_concat_map_all:
  assumes "\<And>x f. x \<in> set xs \<Longrightarrow> f \<in> set (h x) \<Longrightarrow> P f"
  shows "filter P (concat (map h xs)) = concat (map h xs)"
  using assms by (auto simp: filter_id_conv)

lemma check_parent_dangling:
  "s \<in> set (spans g) \<Longrightarrow>
   check_parent (fst (index_spans (spans g))) s
     = (if dangling_parent g s then [parent_failure s] else [])"
  by (auto simp: check_parent_def dangling_parent_def parent_failure_def spanMap_has
      split: option.splits)

lemma concat_map_if: "concat (map (\<lambda>x. if P x then [h x] else []) xs) = map h (filter P xs)"
  by (induction xs) auto

lemma all_dropWhile: "(\<forall>x\<in>set (dropWhile P xs). P x) \<longleftrightarrow> (\<forall>x\<in>set xs. P x)"
  by (induction xs) auto

lemma blank_iff: "blank v \<longleftrightarrow> (\<forall>c\<in>set v. js_whitespace c)"
  by (auto simp: blank_def js_trim_def dropWhile_eq_Nil_conv all_dropWhile)

lemma check_evidence_eq:
  "check_evidence s =
     map (\<lambda>e. evidence_failure s)
       (filter (\<lambda>e. \<forall>c\<in>set (evidence_value e). js_whitespace c) (evidence s))"
  by (simp add: check_evidence_def evidence_failure_def concat_map_if blank_iff)

text \<open>
  C5, counterexample. A repo span whose \<open>parent_span_id\<close> is \<open>null\<close> resolves to no span
  of the graph, yet the validator emits no \<open>valid_parent_reference\<close> failure for it: the
  rule is guarded by \<open>span.parent_span_id &&\<close>.
\<close>

theorem null_parent_not_reported_counterexample:
  "span_type (spans null_parent_graph ! 0) = Core
   \<and> span_type (spans null_parent_graph ! 1) = Repo
   \<and> parent_span_id (spans null_parent_graph ! 1) = None
   \<and> filter (\<lambda>f. rule f = ''valid_parent_reference'')
        (validateExecutionGraph null_parent_graph) = []"
  by (simp add: null_parent_graph_def validator_defs)

text \<open>
  C5, as amended. For every graph containing at least one core span, the
  \<open>valid_parent_reference\<close> failures of \<open>validateExecutionGraph\<close> are, in graph order,
  exactly one for every non-core span whose \<open>parent_span_id\<close> is a non-empty string that
  is the \<open>span_id\<close> of no span of the graph. So there is none for a span whose
  \<open>parent_span_id\<close> is \<open>null\<close> or empty, none for a span whose \<open>parent_span_id\<close> matches
  an existing span's \<open>span_id\<close>, and none for a core span.
\<close>

theorem valid_parent_reference_failures:
  assumes "\<exists>s\<in>set (spans g). span_type s = Core"
  shows "filter (\<lambda>f. rule f = ''valid_parent_reference'') (validateExecutionGraph g)
           = map parent_failure (filter (dangling_parent g) (spans g))"
proof -
  let ?P = "\<lambda>f. rule f = ''valid_parent_reference''"
  have a: "filter ?P (concat (map (check_core (snd (index_spans (spans g))))
                     (filter (\<lambda>s. span_type s = Core) (spans g)))) = []"
    by (rule filter_concat_map_none) (auto dest: rules_check_core)
  have b: "filter ?P (concat (map check_self (spans g))) = []"
    by (rule filter_concat_map_none) (auto dest: rules_check_self)
  have c: "filter ?P (concat (map check_evidence (spans g))) = []"
    by (rule filter_concat_map_none) (auto dest: rules_check_evidence)
  have d: "filter ?P (concat (map check_artifacts (spans g))) = []"
    by (rule filter_concat_map_none) (auto dest: rules_check_artifacts)
  have e: "filter ?P (concat (map (check_parent (fst (index_spans (spans g)))) (spans g)))
             = concat (map (check_parent (fst (index_spans (spans g)))) (spans g))"
    by (rule filter_concat_map_all) (auto dest: rules_check_parent)
  have f: "map (check_parent (fst (index_spans (spans g)))) (spans g)
             = map (\<lambda>s. if dangling_parent g s then [parent_failure s] else []) (spans g)"
    by (rule map_cong) (simp_all add: check_parent_dangling)
  show ?thesis
    unfolding validate_with_core [OF assms] filter_append a b c d e
    by (simp add: f concat_map_if)
qed

theorem valid_parent_reference_failures_witness:
  "(\<exists>s\<in>set (spans orphan_graph). span_type s = Core)
   \<and> filter (\<lambda>f. rule f = ''valid_parent_reference'') (validateExecutionGraph orphan_graph)
       = [\<lparr>vf_span_id = ''repo-1'', rule = ''valid_parent_reference'',
           message = ''Span '' @ dquote @ ''repo:orphan'' @ dquote @
                     '' references non-existent parent_span_id '' @ dquote @
                     ''nonexistent'' @ dquote\<rparr>]"
proof -
  have h: "\<exists>s\<in>set (spans orphan_graph). span_type s = Core"
    by (simp add: orphan_graph_def test_span_def)
  have "map parent_failure (filter (dangling_parent orphan_graph) (spans orphan_graph))
          = [\<lparr>vf_span_id = ''repo-1'', rule = ''valid_parent_reference'',
              message = ''Span '' @ dquote @ ''repo:orphan'' @ dquote @
                        '' references non-existent parent_span_id '' @ dquote @
                        ''nonexistent'' @ dquote\<rparr>]"
    by (simp add: orphan_graph_def test_span_def dangling_parent_def parent_failure_def)
  with valid_parent_reference_failures [OF h] h show ?thesis by simp
qed

text \<open>
  C6, counterexample. An evidence entry whose value is one space (the code unit U+0020)
  is not empty, yet the validator emits an \<open>evidence_must_be_verifiable\<close> failure for
  it: the rule tests \<open>evidence.value.trim() === ''\<close>.
\<close>

theorem space_evidence_reported_counterexample:
  "span_type (spans space_evidence_graph ! 0) = Core
   \<and> map evidence_value (evidence (spans space_evidence_graph ! 2)) = [[0x0020]]
   \<and> filter (\<lambda>f. rule f = ''evidence_must_be_verifiable'')
        (validateExecutionGraph space_evidence_graph)
       = [evidence_failure (spans space_evidence_graph ! 2)]"
  by (simp add: space_evidence_graph_def validator_defs evidence_failure_def)

text \<open>
  C6, as amended. For every graph containing at least one core span, the
  \<open>evidence_must_be_verifiable\<close> failures of \<open>validateExecutionGraph\<close> are, in graph order
  and for each span in the order of its evidence, exactly one for each Evidence entry
  whose value is empty or consists only of code units that \<open>trim\<close> removes (the
  ECMAScript white space and line terminators, in the whole 16-bit range), carrying the
  span's \<open>span_id\<close>; there is none for an entry whose value contains any other code
  unit.
\<close>

theorem evidence_must_be_verifiable_failures:
  assumes "\<exists>s\<in>set (spans g). span_type s = Core"
  shows "filter (\<lambda>f. rule f = ''evidence_must_be_verifiable'') (validateExecutionGraph g)
           = concat (map (\<lambda>s. map (\<lambda>e. evidence_failure s)
                 (filter (\<lambda>e. \<forall>c\<in>set (evidence_value e). js_whitespace c) (evidence s)))
               (spans g))"
proof -
  let ?P = "\<lambda>f. rule f = ''evidence_must_be_verifiable''"
  have a: "filter ?P (concat (map (check_core (snd (index_spans (spans g))))
                     (filter (\<lambda>s. span_type s = Core) (spans g)))) = []"
    by (rule filter_concat_map_none) (auto dest: rules_check_core)
  have b: "filter ?P (concat (map check_self (spans g))) = []"
    by (rule filter_concat_map_none) (auto dest: rules_check_self)
  have c: "filter ?P (concat (map (check_parent (fst (index_spans (spans g)))) (spans g))) = []"
    by (rule filter_concat_map_none) (auto dest: rules_check_parent)
  have d: "filter ?P (concat (map check_artifacts (spans g))) = []"
    by (rule filter_concat_map_none) (auto dest: rules_check_artifacts)
  have e: "filter ?P (concat (map check_evidence (spans g)))
             = concat (map check_evidence (spans g))"
    by (rule filter_concat_map_all) (auto dest: rules_check_evidence)
  have f: "map check_evidence (spans g)
     = map (\<lambda>s. map (\<lambda>e. evidence_failure s)
                 (filter (\<lambda>e. \<forall>c\<in>set (evidence_value e). js_whitespace c) (evidence s))) (spans g)"
    by (rule map_cong) (simp_all add: check_evidence_eq)
  show ?thesis
    unfolding validate_with_core [OF assms] filter_append a b c d e
    by (simp add: f)
qed

theorem evidence_must_be_verifiable_failures_witness:
  "(\<exists>s\<in>set (spans empty_evidence_graph). span_type s = Core)
   \<and> filter (\<lambda>f. rule f = ''evidence_must_be_verifiable'')
        (validateExecutionGraph empty_evidence_graph)
       = [\<lparr>vf_span_id = ''agent-1'', rule = ''evidence_must_be_verifiable'',
           message = ''Span '' @ dquote @ ''agent:test:op'' @ dquote @
                     '' has evidence with empty value''\<rparr>,
          \<lparr>vf_span_id = ''agent-1'', rule = ''evidence_must_be_verifiable'',
           message = ''Span '' @ dquote @ ''agent:test:op'' @ dquote @
                     '' has evidence with empty value''\<rparr>]"
proof -
  have h: "\<exists>s\<in>set (spans empty_evidence_graph). span_type s = Core"
    by (simp add: empty_evidence_graph_def test_span_def)
  have "concat (map (\<lambda>s. map (\<lambda>e. evidence_failure s)
                 (filter (\<lambda>e. \<forall>c\<in>set (evidence_value e). js_whitespace c) (evidence s)))
               (spans empty_evidence_graph))
          = [\<lparr>vf_span_id = ''agent-1'', rule = ''evidence_must_be_verifiable'',
              message = ''Span '' @ dquote @ ''agent:test:op'' @ dquote @
                        '' has evidence with empty value''\<rparr>,
             \<lparr>vf_span_id = ''agent-1'', rule = ''evidence_must_be_verifiable'',
              message = ''Span '' @ dquote @ ''agent:test:op'' @ dquote @
                        '' has evidence with empty value''\<rparr>]"
    by (simp add: empty_evidence_graph_def test_span_def evidence_failure_def js_whitespace_def
        utf16_def)
  with evidence_must_be_verifiable_failures [OF h] h show ?thesis by simp
qed

section \<open>The first span of a reachable context is its core span\<close>

lemma findIndex_Some:
  "findIndex P xs = Some i \<Longrightarrow> i < length xs \<and> P (xs ! i) \<and> (\<forall>j<i. \<not> P (xs ! j))"
proof (induction xs arbitrary: i)
  case Nil
  then show ?case by simp
next
  case (Cons x xs)
  show ?case
  proof (cases "P x")
    case True
    with Cons.prems show ?thesis by simp
  next
    case False
    with Cons.prems obtain k where k: "findIndex P xs = Some k" "i = Suc k"
      by auto
    from Cons.IH [OF k(1)] False k(2) show ?thesis
      by (auto simp: less_Suc_eq_0_disj)
  qed
qed

lemma findIndex_hd: "xs \<noteq> [] \<Longrightarrow> P (hd xs) \<Longrightarrow> findIndex P xs = Some 0"
  by (cases xs) simp_all

lemma coreSpan_updateSpan [simp]: "coreSpan (fst (updateSpan sid u st)) = coreSpan (fst st)"
  by (cases st) (simp add: updateSpan_def split_def Let_def split: option.splits)

lemma ctx_spans_updateSpan:
  "ctx_spans (fst (updateSpan sid u st)) =
     (case findIndex (\<lambda>s. span_id s = sid) (ctx_spans (fst st)) of
        None \<Rightarrow> ctx_spans (fst st)
      | Some i \<Rightarrow> (ctx_spans (fst st))[i := fst (u (ctx_spans (fst st) ! i) (snd st))])"
  by (cases st) (simp add: updateSpan_def split_def Let_def split: option.splits)

lemma hd_list_update: "xs \<noteq> [] \<Longrightarrow> hd (xs[i := y]) = (if i = 0 then y else hd xs)"
  by (cases xs; cases i) simp_all

lemma core_first_updateSpan:
  assumes keep: "\<And>s w. span_id (fst (u s w)) = span_id s \<and> span_type (fst (u s w)) = span_type s"
    and inv: "core_first (fst st)"
  shows "core_first (fst (updateSpan sid u st))"
proof (cases "findIndex (\<lambda>s. span_id s = sid) (ctx_spans (fst st))")
  case None
  with inv show ?thesis by (simp add: core_first_def ctx_spans_updateSpan)
next
  case (Some i)
  from inv have ne: "ctx_spans (fst st) \<noteq> []" by (simp add: core_first_def)
  have "i = 0 \<Longrightarrow> ctx_spans (fst st) ! i = hd (ctx_spans (fst st))"
    using ne by (simp add: hd_conv_nth)
  with inv Some ne keep show ?thesis
    by (simp add: core_first_def ctx_spans_updateSpan hd_list_update)
qed

lemma keep_completeSpan:
  "span_id (fst (completeSpan s w)) = span_id s \<and> span_type (fst (completeSpan s w)) = span_type s"
  by (simp add: completeSpan_def now_def)

lemma keep_failSpan:
  "span_id (fst (failSpan s rs w)) = span_id s \<and> span_type (fst (failSpan s rs w)) = span_type s"
  by (simp add: failSpan_def now_def)

lemma ctx_spans_ingest:
  "ctx_spans (fold (\<lambda>span c'. c'\<lparr>ctx_spans := ctx_spans c' @ [span]\<rparr>) ss c) = ctx_spans c @ ss"
  by (induction ss arbitrary: c) simp_all

lemma coreSpan_ingest:
  "coreSpan (fold (\<lambda>span c'. c'\<lparr>ctx_spans := ctx_spans c' @ [span]\<rparr>) ss c) = coreSpan c"
  by (induction ss arbitrary: c) simp_all

lemma finalize_state:
  "snd (finalize r st) =
     (if core_level_reasons (fst st) = []
      then updateSpan (span_id (coreSpan (fst st))) (\<lambda>s. completeSpan s) st
      else updateSpan (span_id (coreSpan (fst st)))
             (\<lambda>s. failSpan s (core_level_reasons (fst st))) st)"
  by (cases st)
     (simp add: finalize_def core_level_reasons_def other_failed_spans_def split_def Let_def)

lemma reachable_core_first: "reachable st \<Longrightarrow> core_first (fst st)"
proof (induction rule: reachable.induct)
  case (r_new coreName parentSpanId w)
  show ?case
    by (simp add: core_first_def new_ExecutionContext_def createCoreSpan_def
        generateSpanId_def now_def)
next
  case (r_startRepo st rn)
  then show ?case by (simp add: core_first_def startRepoSpan_def split_def Let_def)
next
  case (r_startAgent st parentId an op)
  then show ?case by (simp add: core_first_def startAgentSpan_def split_def Let_def)
next
  case (r_ingest st ss)
  then show ?case
    by (simp add: core_first_def ingestRepoSpans_def split_def ctx_spans_ingest coreSpan_ingest)
next
  case (r_artifact st spanId artifact)
  then show ?case
    unfolding attachArtifactToSpan_def
    by (intro core_first_updateSpan) (simp_all add: now_def)
next
  case (r_evidence st spanId ev)
  then show ?case
    unfolding attachEvidenceToSpan_def
    by (intro core_first_updateSpan) simp_all
next
  case (r_finalize st)
  then show ?case
    by (simp add: finalize_state core_first_updateSpan keep_completeSpan keep_failSpan)
qed (simp_all add: completeRepoSpan_def failRepoSpan_def completeAgentSpan_def
      failAgentSpan_def core_first_updateSpan keep_completeSpan keep_failSpan)

section \<open>finalize\<close>

lemma finalize_fst:
  "fst (finalize r st) =
     \<lparr>success = (core_level_reasons (fst st) = []),
      core_span_id = span_id (coreSpan (fst st)),
      execution_graph = \<lparr>spans = ctx_spans (fst (snd (finalize r st)))\<rparr>,
      validation_failures = validateExecutionGraph \<lparr>spans = ctx_spans (fst st)\<rparr>,
      core_failure_reasons = core_level_reasons (fst st),
      result = r\<rparr>"
  by (cases st)
     (simp add: finalize_def core_level_reasons_def other_failed_spans_def split_def Let_def)

lemma finalize_spans:
  assumes "core_first (fst st)"
  shows "ctx_spans (fst (snd (finalize r st)))
           = finalized_core (fst st) (snd st) # tl (ctx_spans (fst st))"
proof -
  from assms have ne: "ctx_spans (fst st) \<noteq> []"
    and "span_id (hd (ctx_spans (fst st))) = span_id (coreSpan (fst st))"
    by (simp_all add: core_first_def)
  then have idx: "findIndex (\<lambda>s. span_id s = span_id (coreSpan (fst st))) (ctx_spans (fst st)) = Some 0"
    by (simp add: findIndex_hd)
  from ne obtain x xs where xs: "ctx_spans (fst st) = x # xs"
    by (cases "ctx_spans (fst st)") auto
  have "ctx_spans (fst (snd (finalize r st)))
          = (ctx_spans (fst st))[0 := finalized_core (fst st) (snd st)]"
    using ne
    by (simp add: finalize_state ctx_spans_updateSpan idx finalized_core_def hd_conv_nth
        completeSpan_def failSpan_def now_def)
  then show ?thesis by (simp add: xs)
qed

text \<open>
  C1, counterexample. A context that ingested a sub-graph holding a failed span of type
  \<open>core\<close>: the graph has no validation failure and no failed span of a type other than
  \<open>core\<close>, yet \<open>finalize\<close> adds the summary entry, counting the ingested core span, and
  returns \<open>success = false\<close>. \<open>finalize\<close> selects the failed children by
  \<open>s.span_id !== this.coreSpan.span_id\<close>, not by type.
\<close>

theorem foreign_core_counted_counterexample:
  "reachable foreign_core_state
   \<and> filter (\<lambda>s. span_type s \<noteq> Core \<and> status s = Failed)
        (ctx_spans (fst foreign_core_state)) = []
   \<and> validation_failures (fst (finalize () foreign_core_state)) = []
   \<and> core_failure_reasons (fst (finalize () foreign_core_state)) = [''1 child span(s) failed'']
   \<and> \<not> success (fst (finalize () foreign_core_state))"
proof -
  have "reachable foreign_core_state"
    unfolding foreign_core_state_def Let_def split_def
    by (intro reachable.r_ingest reachable.r_completeRepo reachable.r_completeAgent
        reachable.r_startAgent reachable.r_startRepo reachable.r_new)
  moreover have "filter (\<lambda>s. span_type s \<noteq> Core \<and> status s = Failed)
        (ctx_spans (fst foreign_core_state)) = []"
    by code_simp
  moreover have "validation_failures (fst (finalize () foreign_core_state)) = []"
    by code_simp
  moreover have "core_failure_reasons (fst (finalize () foreign_core_state))
                   = [''1 child span(s) failed'']"
    by code_simp
  moreover have "\<not> success (fst (finalize () foreign_core_state))"
    by code_simp
  ultimately show ?thesis by simp
qed

text \<open>
  C1, as amended. For every context the class can reach and every \<open>operationResult\<close>,
  \<open>finalize\<close> (1) runs the validator over the current span collection, (2) builds the
  reasons: one entry \<open>[rule] message\<close> per validation failure, in order, plus, when at
  least one recorded span whose \<open>span_id\<close> differs from the core span's (whatever its
  type) has \<open>status = failed\<close>, one entry \<open><n> child span(s) failed\<close> with \<open>n\<close> the number
  of such spans, (3) replaces the core span, which is the first recorded span, by its
  \<open>completeSpan\<close> when the reasons are empty and by its \<open>failSpan\<close> with exactly those
  reasons otherwise, and (4) returns \<open>success\<close> equal to (the reasons are empty), the core
  span id, the graph of all recorded spans in order with the updated core span in its
  place, the validation failures, the reasons, and the \<open>operationResult\<close> unchanged.
\<close>

theorem finalize_result:
  assumes "reachable (c, w)"
  shows "span_type (hd (ctx_spans c)) = Core
       \<and> span_id (hd (ctx_spans c)) = span_id (coreSpan c)
       \<and> fst (finalize r (c, w)) =
           \<lparr>success = (core_level_reasons c = []),
            core_span_id = span_id (coreSpan c),
            execution_graph = \<lparr>spans = finalized_core c w # tl (ctx_spans c)\<rparr>,
            validation_failures = validateExecutionGraph \<lparr>spans = ctx_spans c\<rparr>,
            core_failure_reasons = core_level_reasons c,
            result = r\<rparr>
       \<and> ctx_spans (fst (snd (finalize r (c, w)))) = finalized_core c w # tl (ctx_spans c)"
proof -
  from assms have inv: "core_first c"
    using reachable_core_first by fastforce
  then have "ctx_spans (fst (snd (finalize r (c, w)))) = finalized_core c w # tl (ctx_spans c)"
    using finalize_spans [of "(c, w)" r] by simp
  with inv show ?thesis
    by (simp add: finalize_fst core_first_def)
qed



theorem finalize_result_witness:
  "reachable failed_agent_state
   \<and> \<not> success (fst (finalize ''payload'' failed_agent_state))
   \<and> core_failure_reasons (fst (finalize ''payload'' failed_agent_state))
       = [''2 child span(s) failed'']
   \<and> validation_failures (fst (finalize ''payload'' failed_agent_state)) = []
   \<and> result (fst (finalize ''payload'' failed_agent_state)) = ''payload''
   \<and> map status (spans (execution_graph (fst (finalize ''payload'' failed_agent_state))))
       = [Failed, Failed, Failed]"
proof -
  have r: "reachable (fst failed_agent_state, snd failed_agent_state)"
    unfolding failed_agent_state_def Let_def split_def prod.collapse
    by (intro reachable.r_failRepo reachable.r_failAgent reachable.r_startAgent
        reachable.r_startRepo reachable.r_new)
  have e1: "core_level_reasons (fst failed_agent_state) = [''2 child span(s) failed'']"
    by code_simp
  have e2: "validateExecutionGraph \<lparr>spans = ctx_spans (fst failed_agent_state)\<rparr> = []"
    by code_simp
  have e3: "map status (tl (ctx_spans (fst failed_agent_state))) = [Failed, Failed]"
    by code_simp
  from finalize_result [OF r, of "''payload''"] r e1 e2 e3 show ?thesis
    by (simp add: finalized_core_def)
qed

section \<open>The order of the spans of a multi-repo run\<close>

lemma list_update_same_map:
  "i < length xs \<Longrightarrow> f y = f (xs ! i) \<Longrightarrow> map f (xs[i := y]) = map f xs"
  by (simp add: map_update list_update_same_conv)

lemma ids_view_updateSpan:
  assumes "\<And>s w. shape (fst (upd s w)) = shape s
                \<and> uuid_source (snd (upd s w)) = uuid_source w
                \<and> uuid_calls (snd (upd s w)) = uuid_calls w"
  shows "ids_view (updateSpan sid upd st) = ids_view st"
proof (cases "findIndex (\<lambda>s. span_id s = sid) (ctx_spans (fst st))")
  case None
  then show ?thesis
    by (cases st) (simp add: ids_view_def updateSpan_def)
next
  case (Some i)
  with findIndex_Some [OF Some] assms show ?thesis
    by (cases st)
       (simp add: ids_view_def updateSpan_def split_def Let_def list_update_same_map)
qed

lemma completeSpan_keeps_ids:
  "shape (fst (completeSpan s w)) = shape s
   \<and> uuid_source (snd (completeSpan s w)) = uuid_source w
   \<and> uuid_calls (snd (completeSpan s w)) = uuid_calls w"
  by (simp add: completeSpan_def now_def shape_def)

lemma failSpan_keeps_ids:
  "shape (fst (failSpan s rs w)) = shape s
   \<and> uuid_source (snd (failSpan s rs w)) = uuid_source w
   \<and> uuid_calls (snd (failSpan s rs w)) = uuid_calls w"
  by (simp add: failSpan_def now_def shape_def)

lemma ids_view_methods [simp]:
  "ids_view (completeRepoSpan sid st) = ids_view st"
  "ids_view (failRepoSpan sid rs st) = ids_view st"
  "ids_view (completeAgentSpan sid st) = ids_view st"
  "ids_view (failAgentSpan sid rs st) = ids_view st"
  unfolding completeRepoSpan_def failRepoSpan_def completeAgentSpan_def failAgentSpan_def
  by (rule ids_view_updateSpan, simp add: completeSpan_keeps_ids failSpan_keeps_ids)+

lemma ids_view_attachEvidenceToSpan [simp]:
  "ids_view (attachEvidenceToSpan sid ev st) = ids_view st"
  unfolding attachEvidenceToSpan_def
  by (rule ids_view_updateSpan) (simp add: shape_def)

lemma ids_view_finalize [simp]: "ids_view (snd (finalize r st)) = ids_view st"
  by (auto simp: finalize_state completeSpan_keeps_ids failSpan_keeps_ids
      intro!: ids_view_updateSpan)

lemma ids_view_step:
  "ids_view (fst (multi_repo_step e (st, res, hf))) =
     (map shape (ctx_spans (fst st))
        @ [(Repo, uuid_source (snd st) (uuid_calls (snd st)), Some (span_id (coreSpan (fst st))),
            Some (repoName e), None, None),
           (Agent, uuid_source (snd st) (Suc (uuid_calls (snd st))),
            Some (uuid_source (snd st) (uuid_calls (snd st))),
            None, Some (agentName e), Some (entry_operation e))],
      coreSpan (fst st), uuid_source (snd st), Suc (Suc (uuid_calls (snd st))))"
proof -
  let ?st1 = "snd (startRepoSpan (repoName e) st)"
  let ?rid = "span_id (fst (startRepoSpan (repoName e) st))"
  let ?st2 = "snd (startAgentSpan ?rid (agentName e) (entry_operation e) ?st1)"
  have "ids_view (fst (multi_repo_step e (st, res, hf))) = ids_view ?st2"
    by (simp add: multi_repo_step_def split_def Let_def split: sum.splits)
  also have "\<dots> = (map shape (ctx_spans (fst st))
        @ [(Repo, uuid_source (snd st) (uuid_calls (snd st)), Some (span_id (coreSpan (fst st))),
            Some (repoName e), None, None),
           (Agent, uuid_source (snd st) (Suc (uuid_calls (snd st))),
            Some (uuid_source (snd st) (uuid_calls (snd st))),
            None, Some (agentName e), Some (entry_operation e))],
      coreSpan (fst st), uuid_source (snd st), Suc (Suc (uuid_calls (snd st))))"
    by (simp add: ids_view_def startRepoSpan_def startAgentSpan_def createRepoSpan_def
        createAgentSpan_def generateSpanId_def now_def shape_def split_def Let_def)
  finally show ?thesis .
qed

lemma ids_view_loop:
  "ids_view (fst (multi_repo_loop es (st, res, hf))) =
     (map shape (ctx_spans (fst st))
        @ entry_shapes (span_id (coreSpan (fst st))) (uuid_source (snd st)) (uuid_calls (snd st)) es,
      coreSpan (fst st), uuid_source (snd st), uuid_calls (snd st) + 2 * length es)"
proof (induction es arbitrary: st res hf)
  case Nil
  show ?case by (simp add: multi_repo_loop_def ids_view_def)
next
  case (Cons e es)
  obtain st' res' hf' where step: "multi_repo_step e (st, res, hf) = (st', res', hf')"
    by (cases "multi_repo_step e (st, res, hf)")
  from ids_view_step [of e st res hf] step
  have v: "map shape (ctx_spans (fst st')) = map shape (ctx_spans (fst st))
        @ [(Repo, uuid_source (snd st) (uuid_calls (snd st)), Some (span_id (coreSpan (fst st))),
            Some (repoName e), None, None),
           (Agent, uuid_source (snd st) (Suc (uuid_calls (snd st))),
            Some (uuid_source (snd st) (uuid_calls (snd st))),
            None, Some (agentName e), Some (entry_operation e))]"
    "coreSpan (fst st') = coreSpan (fst st)" "uuid_source (snd st') = uuid_source (snd st)"
    "uuid_calls (snd st') = Suc (Suc (uuid_calls (snd st)))"
    by (simp_all add: ids_view_def)
  have "multi_repo_loop (e # es) (st, res, hf) = multi_repo_loop es (st', res', hf')"
    by (simp add: multi_repo_loop_def step)
  then show ?case
    by (simp add: Cons.IH v)
qed

lemma multi_repo_graph:
  "spans (execution_graph (fst (executeMultiRepoWithSpans cn p es agg w)))
     = ctx_spans (fst (snd (finalize (r :: unit)
         (fst (multi_repo_loop es (new_ExecutionContext cn p w, [], False))))))"
  by (simp add: executeMultiRepoWithSpans_def split_def Let_def finalize_fst finalize_state)

lemma multi_repo_shapes:
  "map shape (spans (execution_graph (fst (executeMultiRepoWithSpans cn p es agg w))))
     = (Core, uuid_source w (uuid_calls w), p, None, None, None)
       # entry_shapes (uuid_source w (uuid_calls w)) (uuid_source w) (Suc (uuid_calls w)) es"
proof -
  let ?st0 = "new_ExecutionContext cn p w"
  have st0: "ids_view ?st0 = ([(Core, uuid_source w (uuid_calls w), p, None, None, None)],
       coreSpan (fst ?st0), uuid_source w, Suc (uuid_calls w))"
       "span_id (coreSpan (fst ?st0)) = uuid_source w (uuid_calls w)"
    by (simp_all add: ids_view_def new_ExecutionContext_def createCoreSpan_def generateSpanId_def
        now_def shape_def)
  have "ids_view (snd (finalize () (fst (multi_repo_loop es (?st0, [], False)))))
      = ids_view (fst (multi_repo_loop es (?st0, [], False)))"
    by simp
  also have "\<dots> = (map shape (ctx_spans (fst ?st0))
        @ entry_shapes (span_id (coreSpan (fst ?st0))) (uuid_source (snd ?st0)) (uuid_calls (snd ?st0)) es,
      coreSpan (fst ?st0), uuid_source (snd ?st0), uuid_calls (snd ?st0) + 2 * length es)"
    by (rule ids_view_loop)
  finally show ?thesis
    using st0 by (simp add: multi_repo_graph [where r="()"] ids_view_def)
qed

lemma entry_shapes_parent:
  "j < length (entry_shapes cid U u es) \<Longrightarrow>
     sh_parent (entry_shapes cid U u es ! j) = Some cid
     \<or> sh_parent (entry_shapes cid U u es ! j)
         \<in> Some ` sh_id ` set (take j (entry_shapes cid U u es))"
proof (induction es arbitrary: u j)
  case Nil
  then show ?case by simp
next
  case (Cons e es)
  show ?case
  proof (cases j)
    case 0
    then show ?thesis by simp
  next
    case (Suc j')
    show ?thesis
    proof (cases j')
      case 0
      with Suc show ?thesis by simp
    next
      case (Suc j'')
      with \<open>j = Suc j'\<close> Cons.prems have "j'' < length (entry_shapes cid U (Suc (Suc u)) es)"
        by simp
      from Cons.IH [OF this] Suc \<open>j = Suc j'\<close> show ?thesis by auto
    qed
  qed
qed

lemma shapes_parent_precedes:
  assumes L: "L = (Core, cid, p, None, None, None) # entry_shapes cid U u es"
    and j: "j < length L" and nc: "sh_type (L ! j) \<noteq> Core"
  shows "sh_parent (L ! j) \<in> Some ` sh_id ` set (take j L)"
proof (cases j)
  case 0
  with L nc show ?thesis by simp
next
  case (Suc j')
  with L j have "j' < length (entry_shapes cid U u es)" by simp
  from entry_shapes_parent [OF this] Suc L show ?thesis by auto
qed

lemma shape_projections:
  "sh_type (shape s) = span_type s" "sh_id (shape s) = span_id s"
  "sh_parent (shape s) = parent_span_id s"
  by (simp_all add: shape_def)

lemma parent_precedes_transfer:
  assumes S: "map shape S = L" and j: "j < length S"
    and P: "sh_type (L ! j) \<noteq> Core \<Longrightarrow> sh_parent (L ! j) \<in> Some ` sh_id ` set (take j L)"
    and nc: "span_type (S ! j) \<noteq> Core"
  shows "parent_span_id (S ! j) \<in> Some ` span_id ` set (take j S)"
proof -
  from S j have Lj: "L ! j = shape (S ! j)" by auto
  from S have "take j L = map shape (take j S)" by (auto simp: take_map)
  then have ids: "sh_id ` set (take j L) = span_id ` set (take j S)"
    by (simp add: image_image shape_projections)
  from P nc Lj have "sh_parent (L ! j) \<in> Some ` sh_id ` set (take j L)"
    by (simp add: shape_projections)
  then show ?thesis by (simp add: Lj ids shape_projections)
qed

text \<open>
  C9. The spans of the graph returned by \<open>executeMultiRepoWithSpans\<close> are, by type,
  identifier, parent and names, exactly the core span followed by the repo span and the
  agent span of each entry in the order the entries were supplied; their identifiers are
  the generated identifiers in the order of generation, every repo span has the core
  span as parent and every agent span the repo span just before it. Consequently every
  span of a type other than \<open>core\<close> has as \<open>parent_span_id\<close> the \<open>span_id\<close> of a span at a
  strictly earlier position. This holds whichever entries fail and whatever the
  generated identifiers are.
\<close>

theorem multi_repo_span_order:
  "(let S = spans (execution_graph (fst (executeMultiRepoWithSpans cn p es agg w))) in
      map shape S
        = (Core, uuid_source w (uuid_calls w), p, None, None, None)
          # entry_shapes (uuid_source w (uuid_calls w)) (uuid_source w) (Suc (uuid_calls w)) es
      \<and> (\<forall>j<length S. span_type (S ! j) \<noteq> Core
             \<longrightarrow> parent_span_id (S ! j) \<in> Some ` span_id ` set (take j S)))"
proof -
  let ?S = "spans (execution_graph (fst (executeMultiRepoWithSpans cn p es agg w)))"
  let ?L = "(Core, uuid_source w (uuid_calls w), p, None, None, None)
          # entry_shapes (uuid_source w (uuid_calls w)) (uuid_source w) (Suc (uuid_calls w)) es"
  have S: "map shape ?S = ?L" by (rule multi_repo_shapes)
  have "parent_span_id (?S ! j) \<in> Some ` span_id ` set (take j ?S)"
    if j: "j < length ?S" and nc: "span_type (?S ! j) \<noteq> Core" for j
  proof -
    have "length (map shape ?S) = length ?L" by (rule arg_cong [OF S])
    with j have jl: "j < length ?L" by (simp only: length_map)
    have P: "sh_type (?L ! j) \<noteq> Core \<Longrightarrow> sh_parent (?L ! j) \<in> Some ` sh_id ` set (take j ?L)"
      by (rule shapes_parent_precedes [OF refl jl])
    show ?thesis by (rule parent_precedes_transfer [OF S j P nc])
  qed
  then have "\<forall>j<length ?S. span_type (?S ! j) \<noteq> Core
             \<longrightarrow> parent_span_id (?S ! j) \<in> Some ` span_id ` set (take j ?S)"
    by blast
  with S show ?thesis unfolding Let_def by (rule conjI)
qed

theorem multi_repo_span_order_witness:
  "map (\<lambda>s. (span_type s, span_id s, parent_span_id s))
     (spans (execution_graph
        (fst (executeMultiRepoWithSpans ''ecosystem-core'' None overview_entries
                count_aggregator sample_world))))
     = [(Core, ''span-0'', None),
        (Repo, ''span-1'', Some ''span-0''), (Agent, ''span-2'', Some ''span-1''),
        (Repo, ''span-3'', Some ''span-0''), (Agent, ''span-4'', Some ''span-3''),
        (Repo, ''span-5'', Some ''span-0''), (Agent, ''span-6'', Some ''span-5'')]
   \<and> parent_span_id (spans (execution_graph
        (fst (executeMultiRepoWithSpans ''ecosystem-core'' None overview_entries
                count_aggregator sample_world))) ! 4)
       \<in> Some ` span_id ` set (take 4 (spans (execution_graph
        (fst (executeMultiRepoWithSpans ''ecosystem-core'' None overview_entries
                count_aggregator sample_world)))))"
proof -
  let ?S = "spans (execution_graph
        (fst (executeMultiRepoWithSpans ''ecosystem-core'' None overview_entries
                count_aggregator sample_world)))"
  have a: "map (\<lambda>s. (span_type s, span_id s, parent_span_id s)) ?S
     = [(Core, ''span-0'', None),
        (Repo, ''span-1'', Some ''span-0''), (Agent, ''span-2'', Some ''span-1''),
        (Repo, ''span-3'', Some ''span-0''), (Agent, ''span-4'', Some ''span-3''),
        (Repo, ''span-5'', Some ''span-0''), (Agent, ''span-6'', Some ''span-5'')]"
    by code_simp
  have b: "4 < length ?S" by code_simp
  have c: "span_type (?S ! 4) \<noteq> Core" by code_simp
  from multi_repo_span_order [of "''ecosystem-core''" None overview_entries count_aggregator
      sample_world] b c
  have "parent_span_id (?S ! 4) \<in> Some ` span_id ` set (take 4 ?S)"
    by (simp add: Let_def)
  with a show ?thesis by simp
qed

section \<open>One iteration and the loop, with fresh identifiers\<close>

lemma findIndex_append:
  "\<forall>x\<in>set xs. \<not> P x \<Longrightarrow>
     findIndex P (xs @ ys) = map_option (\<lambda>i. length xs + i) (findIndex P ys)"
proof (induction xs)
  case Nil
  show ?case by (cases "findIndex P ys") simp_all
next
  case (Cons x xs)
  then show ?case by (cases "findIndex P ys") simp_all
qed

lemma updateSpan_agent:
  assumes "sid \<notin> span_id ` set xs" "span_id r \<noteq> sid" "span_id a = sid"
  shows "updateSpan sid upd (c\<lparr>ctx_spans := xs @ [r, a]\<rparr>, w)
           = (c\<lparr>ctx_spans := xs @ [r, fst (upd a w)]\<rparr>, snd (upd a w))"
proof -
  from assms have "findIndex (\<lambda>s. span_id s = sid) (xs @ [r, a]) = Some (length xs + 1)"
    by (subst findIndex_append) (auto simp: image_iff)
  then show ?thesis
    by (simp add: updateSpan_def split_def Let_def nth_append list_update_append)
qed

lemma updateSpan_repo:
  assumes "sid \<notin> span_id ` set xs" "span_id r = sid"
  shows "updateSpan sid upd (c\<lparr>ctx_spans := xs @ [r, a]\<rparr>, w)
           = (c\<lparr>ctx_spans := xs @ [fst (upd r w), a]\<rparr>, snd (upd r w))"
proof -
  from assms have "findIndex (\<lambda>s. span_id s = sid) (xs @ [r, a]) = Some (length xs + 0)"
    by (subst findIndex_append) (auto simp: image_iff)
  then show ?thesis
    by (simp add: updateSpan_def split_def Let_def nth_append list_update_append)
qed

lemma multi_repo_step_fresh:
  assumes f1: "uuid_source w (uuid_calls w) \<notin> span_id ` set (ctx_spans c)"
    and f2: "uuid_source w (Suc (uuid_calls w)) \<notin> span_id ` set (ctx_spans c)"
    and f3: "uuid_source w (uuid_calls w) \<noteq> uuid_source w (Suc (uuid_calls w))"
  shows "multi_repo_step e ((c, w), res, hf) =
           ((c\<lparr>ctx_spans := ctx_spans c @
                 [finished_repo_span e (span_id (coreSpan c)) (uuid_source w (uuid_calls w))
                    (clock_source w (clock_calls w)) (clock_source w (clock_calls w + 3)),
                  finished_agent_span e (uuid_source w (uuid_calls w))
                    (uuid_source w (Suc (uuid_calls w)))
                    (clock_source w (Suc (clock_calls w))) (clock_source w (clock_calls w + 2))]\<rparr>,
             w\<lparr>uuid_calls := uuid_calls w + 2, clock_calls := clock_calls w + 4\<rparr>),
            res @ [entry_result e], hf \<or> isl (fn e))"
proof (cases "fn e")
  case (Inl err)
  with f1 f2 f3 show ?thesis
    by (simp add: multi_repo_step_def startRepoSpan_def startAgentSpan_def createRepoSpan_def
        createAgentSpan_def generateSpanId_def now_def split_def Let_def
        failRepoSpan_def failAgentSpan_def failSpan_def
        updateSpan_agent updateSpan_repo finished_repo_span_def finished_agent_span_def
        entry_result_def numeral_3_eq_3 numeral_2_eq_2 eval_nat_numeral)
next
  case (Inr v)
  with f1 f2 f3 show ?thesis
    by (simp add: multi_repo_step_def startRepoSpan_def startAgentSpan_def createRepoSpan_def
        createAgentSpan_def generateSpanId_def now_def split_def Let_def
        completeRepoSpan_def completeAgentSpan_def attachEvidenceToSpan_def completeSpan_def
        updateSpan_agent updateSpan_repo finished_repo_span_def finished_agent_span_def
        entry_result_def eval_nat_numeral)
qed

lemma finished_span_fields [simp]:
  "span_id (finished_repo_span e cid sid t0 t1) = sid"
  "span_type (finished_repo_span e cid sid t0 t1) = Repo"
  "parent_span_id (finished_repo_span e cid sid t0 t1) = Some cid"
  "evidence (finished_repo_span e cid sid t0 t1) = []"
  "artifacts (finished_repo_span e cid sid t0 t1) = []"
  "span_id (finished_agent_span e rid sid t0 t1) = sid"
  "span_type (finished_agent_span e rid sid t0 t1) = Agent"
  "parent_span_id (finished_agent_span e rid sid t0 t1) = Some rid"
  "artifacts (finished_agent_span e rid sid t0 t1) = []"
  by (simp_all add: finished_repo_span_def finished_agent_span_def)

lemma finished_span_status [simp]:
  "status (finished_repo_span e cid sid t0 t1) = Failed \<longleftrightarrow> isl (fn e)"
  "status (finished_agent_span e rid sid t0 t1) = Failed \<longleftrightarrow> isl (fn e)"
  "status (finished_repo_span e cid sid t0 t1) = Completed \<longleftrightarrow> \<not> isl (fn e)"
  "status (finished_agent_span e rid sid t0 t1) = Completed \<longleftrightarrow> \<not> isl (fn e)"
  by (simp_all add: finished_repo_span_def finished_agent_span_def split: sum.splits)

lemma length_finished_pairs [simp]:
  "length (finished_pairs cid U T u t es) = 2 * length es"
  by (induction es arbitrary: u t) simp_all

lemma in_finished_pairs:
  "s \<in> set (finished_pairs cid U T u t es) \<longleftrightarrow>
     (\<exists>i<length es.
        s = finished_repo_span (es ! i) cid (U (u + 2 * i)) (T (t + 4 * i)) (T (t + 4 * i + 3))
      \<or> s = finished_agent_span (es ! i) (U (u + 2 * i)) (U (Suc (u + 2 * i)))
              (T (Suc (t + 4 * i))) (T (t + 4 * i + 2)))"
proof (induction es arbitrary: u t)
  case Nil
  show ?case by simp
next
  case (Cons e es)
  show ?case
    by (simp add: Cons.IH Ex_less_Suc2 add.assoc add.left_commute)
qed

lemma finished_pairs_nth:
  "i < length es \<Longrightarrow>
     finished_pairs cid U T u t es ! (2 * i)
       = finished_repo_span (es ! i) cid (U (u + 2 * i)) (T (t + 4 * i)) (T (t + 4 * i + 3))
   \<and> finished_pairs cid U T u t es ! (Suc (2 * i))
       = finished_agent_span (es ! i) (U (u + 2 * i)) (U (Suc (u + 2 * i)))
           (T (Suc (t + 4 * i))) (T (t + 4 * i + 2))"
proof (induction es arbitrary: u t i)
  case Nil
  then show ?case by simp
next
  case (Cons e es)
  show ?case
  proof (cases i)
    case 0
    then show ?thesis by simp
  next
    case (Suc i')
    with Cons.prems have "i' < length es" by simp
    from Cons.IH [OF this, of "u + 2" "t + 4"] Suc show ?thesis
      by (simp add: add_ac)
  qed
qed

lemma image_disjointD: "f ` A \<inter> B = {} \<Longrightarrow> a \<in> A \<Longrightarrow> f a \<notin> B"
  by blast

lemma multi_repo_loop_fresh:
  assumes "inj_on (uuid_source w) {uuid_calls w ..< uuid_calls w + 2 * length es}"
    and "uuid_source w ` {uuid_calls w ..< uuid_calls w + 2 * length es}
           \<inter> span_id ` set (ctx_spans c) = {}"
  shows "multi_repo_loop es ((c, w), res, hf) =
           ((c\<lparr>ctx_spans := ctx_spans c @
                 finished_pairs (span_id (coreSpan c)) (uuid_source w) (clock_source w)
                   (uuid_calls w) (clock_calls w) es\<rparr>,
             w\<lparr>uuid_calls := uuid_calls w + 2 * length es,
               clock_calls := clock_calls w + 4 * length es\<rparr>),
            res @ map entry_result es, hf \<or> (\<exists>e\<in>set es. isl (fn e)))"
  using assms
proof (induction es arbitrary: c w res hf)
  case Nil
  show ?case by (simp add: multi_repo_loop_def)
next
  case (Cons e es)
  let ?U = "uuid_source w" and ?u = "uuid_calls w"
  let ?c' = "c\<lparr>ctx_spans := ctx_spans c @
                 [finished_repo_span e (span_id (coreSpan c)) (uuid_source w (uuid_calls w))
                    (clock_source w (clock_calls w)) (clock_source w (clock_calls w + 3)),
                  finished_agent_span e (uuid_source w (uuid_calls w))
                    (uuid_source w (Suc (uuid_calls w)))
                    (clock_source w (Suc (clock_calls w))) (clock_source w (clock_calls w + 2))]\<rparr>"
  let ?w' = "w\<lparr>uuid_calls := uuid_calls w + 2, clock_calls := clock_calls w + 4\<rparr>"
  have f1: "?U ?u \<notin> span_id ` set (ctx_spans c)"
    by (rule image_disjointD [OF Cons.prems(2)]) simp
  have f2: "?U (Suc ?u) \<notin> span_id ` set (ctx_spans c)"
    by (rule image_disjointD [OF Cons.prems(2)]) simp
  have f3: "?U ?u \<noteq> ?U (Suc ?u)"
    using inj_onD [OF Cons.prems(1), of ?u "Suc ?u"] by auto
  note step = multi_repo_step_fresh [OF f1 f2 f3, of e res hf]
  have inj': "inj_on (uuid_source ?w') {uuid_calls ?w' ..< uuid_calls ?w' + 2 * length es}"
  proof -
    have "inj_on (uuid_source w) {uuid_calls w + 2 ..< uuid_calls w + 2 + 2 * length es}"
      by (rule inj_on_subset [OF Cons.prems(1)]) auto
    then show ?thesis by simp
  qed
  have a: "?U j \<noteq> ?U ?u \<and> ?U j \<noteq> ?U (Suc ?u)"
    if "?u + 2 \<le> j" "j < ?u + 2 + 2 * length es" for j
    using inj_onD [OF Cons.prems(1), of j ?u] inj_onD [OF Cons.prems(1), of j "Suc ?u"] that
    by auto
  have b: "?U j \<notin> span_id ` set (ctx_spans c)"
    if "?u + 2 \<le> j" "j < ?u + 2 + 2 * length es" for j
    by (rule image_disjointD [OF Cons.prems(2)]) (use that in simp)
  have ids': "span_id ` set (ctx_spans ?c')
                = insert (?U ?u) (insert (?U (Suc ?u)) (span_id ` set (ctx_spans c)))"
    by auto
  have nj: "?U j \<notin> span_id ` set (ctx_spans ?c')"
    if "?u + 2 \<le> j" "j < ?u + 2 + 2 * length es" for j
    unfolding ids' using a [OF that] b [OF that] by simp
  have "?U ` {?u + 2 ..< ?u + 2 + 2 * length es} \<inter> span_id ` set (ctx_spans ?c') = {}"
  proof -
    have "?U j \<notin> span_id ` set (ctx_spans ?c')"
      if "j \<in> {?u + 2 ..< ?u + 2 + 2 * length es}" for j
    proof -
      from that have "?u + 2 \<le> j" "j < ?u + 2 + 2 * length es" by simp_all
      then show ?thesis by (rule nj)
    qed
    then show ?thesis by blast
  qed
  then have new': "uuid_source ?w' ` {uuid_calls ?w' ..< uuid_calls ?w' + 2 * length es}
           \<inter> span_id ` set (ctx_spans ?c') = {}"
    by simp
  have "multi_repo_loop (e # es) ((c, w), res, hf)
          = multi_repo_loop es ((?c', ?w'), res @ [entry_result e], hf \<or> isl (fn e))"
    by (simp add: multi_repo_loop_def step)
  also note Cons.IH [OF inj' new']
  finally show ?case by (simp add: add_ac) 
qed

section \<open>A sufficient condition for a graph without validation failures\<close>

lemma get_children_fold:
  "get_children (snd (fold index_span ss (m, cbp))) k
     = get_children cbp k @ filter (\<lambda>s. parent_span_id s = Some k \<and> k \<noteq> []) ss"
proof (induction ss arbitrary: m cbp)
  case Nil
  show ?case by simp
next
  case (Cons s ss)
  obtain m' cbp' where step: "index_span s (m, cbp) = (m', cbp')"
    by (cases "index_span s (m, cbp)")
  then have "get_children cbp' k
      = get_children cbp k @ (if parent_span_id s = Some k \<and> k \<noteq> [] then [s] else [])"
    by (auto simp: index_span_def get_children_def Let_def split: option.splits if_splits)
  with Cons.IH [of m' cbp'] step show ?case by simp
qed

lemma children_of:
  "get_children (snd (index_spans ss)) k
     = filter (\<lambda>s. parent_span_id s = Some k \<and> k \<noteq> []) ss"
proof -
  have "get_children Map.empty k = []" by (simp add: get_children_def)
  then show ?thesis by (simp add: index_spans_def get_children_fold)
qed

lemma concat_map_Nil: "(\<And>x. x \<in> set xs \<Longrightarrow> h x = []) \<Longrightarrow> concat (map h xs) = []"
  by (induction xs) simp_all

lemma validate_clean:
  assumes core: "\<exists>s\<in>set ss. span_type s = Core"
    and c1: "\<And>c. c \<in> set ss \<Longrightarrow> span_type c = Core \<Longrightarrow>
               span_id c \<noteq> [] \<and> (\<exists>r\<in>set ss. span_type r = Repo \<and> parent_span_id r = Some (span_id c))"
    and c2: "\<And>r. r \<in> set ss \<Longrightarrow> span_type r = Repo \<Longrightarrow>
               span_id r \<noteq> [] \<and> (\<exists>a\<in>set ss. span_type a = Agent \<and> parent_span_id a = Some (span_id r))"
    and c3: "\<And>s q. s \<in> set ss \<Longrightarrow> parent_span_id s = Some q \<Longrightarrow> span_type s \<noteq> Core \<Longrightarrow>
               q \<in> span_id ` set ss"
    and c4: "\<And>s. s \<in> set ss \<Longrightarrow> parent_span_id s \<noteq> Some (span_id s)"
    and c5: "\<And>s ev. s \<in> set ss \<Longrightarrow> ev \<in> set (evidence s) \<Longrightarrow> \<not> blank (evidence_value ev)"
    and c6: "\<And>s a. s \<in> set ss \<Longrightarrow> a \<in> set (artifacts s) \<Longrightarrow> \<not> blank (artifact_id a)"
  shows "validateExecutionGraph \<lparr>spans = ss\<rparr> = []"
proof -
  let ?cbp = "snd (index_spans ss)"
  have repo_ok: "check_repo ?cbp r = []" if "r \<in> set ss" "span_type r = Repo" for r
  proof -
    from c2 [OF that] obtain a where "span_id r \<noteq> []" "a \<in> set ss" "span_type a = Agent"
      "parent_span_id a = Some (span_id r)" by blast
    then have "a \<in> set (filter (\<lambda>s. span_type s = Agent) (get_children ?cbp (span_id r)))"
      by (simp add: children_of)
    then have "filter (\<lambda>s. span_type s = Agent) (get_children ?cbp (span_id r)) \<noteq> []"
      by (metis empty_iff empty_set)
    then show ?thesis by (simp add: check_repo_def)
  qed
  have core_ok: "check_core ?cbp c = []" if "c \<in> set ss" "span_type c = Core" for c
  proof -
    from c1 [OF that] obtain r where "span_id c \<noteq> []" "r \<in> set ss" "span_type r = Repo"
      "parent_span_id r = Some (span_id c)" by blast
    then have "r \<in> set (filter (\<lambda>s. span_type s = Repo) (get_children ?cbp (span_id c)))"
      by (simp add: children_of)
    then have ne: "filter (\<lambda>s. span_type s = Repo) (get_children ?cbp (span_id c)) \<noteq> []"
      by (metis empty_iff empty_set)
    have "concat (map (check_repo ?cbp)
            (filter (\<lambda>s. span_type s = Repo) (get_children ?cbp (span_id c)))) = []"
      by (rule concat_map_Nil) (auto simp: children_of intro: repo_ok)
    with ne show ?thesis by (simp add: check_core_def Let_def)
  qed
  have p1: "concat (map (check_core ?cbp) (filter (\<lambda>s. span_type s = Core) ss)) = []"
    by (rule concat_map_Nil) (auto intro: core_ok)
  have p2: "concat (map (check_parent (fst (index_spans ss))) ss) = []"
  proof (rule concat_map_Nil)
    fix s assume s: "s \<in> set ss"
    show "check_parent (fst (index_spans ss)) s = []"
      using c3 [OF s] by (auto simp: check_parent_def spanMap_has split: option.splits)
  qed
  have p3: "concat (map check_self ss) = []"
    by (rule concat_map_Nil) (simp add: check_self_def c4)
  have p4: "concat (map check_evidence ss) = []"
    by (rule concat_map_Nil) (auto simp: check_evidence_def c5 intro!: concat_map_Nil)
  have p5: "concat (map check_artifacts ss) = []"
    by (rule concat_map_Nil) (auto simp: check_artifacts_def c6 intro!: concat_map_Nil)
  from core have "\<exists>s\<in>set (spans \<lparr>spans = ss\<rparr>). span_type s = Core" by simp
  from validate_with_core [OF this] p1 p2 p3 p4 p5 show ?thesis by simp
qed

lemma fresh_ids_inj:
  "fresh_ids w n \<Longrightarrow> inj_on (uuid_source w) {uuid_calls w ..< uuid_calls w + n}"
  by (simp add: fresh_ids_def distinct_map)

lemma fresh_ids_nonempty:
  assumes "fresh_ids w n" "uuid_calls w \<le> j" "j < uuid_calls w + n"
  shows "uuid_source w j \<noteq> []"
proof
  assume "uuid_source w j = []"
  with assms(2,3) have "[] \<in> uuid_source w ` {uuid_calls w ..< uuid_calls w + n}"
    by (metis atLeastLessThan_iff imageI)
  with assms(1) show False by (simp add: fresh_ids_def)
qed

lemma completion_evidence_not_blank:
  "\<not> blank (evidence_value (completion_evidence rn an op sid))"
proof -
  have "(0x3A :: 16 word) \<in> set (evidence_value (completion_evidence rn an op sid))"
    by (simp add: completion_evidence_def utf16_def)
  moreover have "\<not> js_whitespace (0x3A :: 16 word)"
    by (simp add: js_whitespace_def)
  ultimately show ?thesis
    unfolding blank_iff by blast
qed

section \<open>The result of a multi-repo run\<close>

lemma finished_pairs_cases:
  assumes "s \<in> set (finished_pairs cid U T u t es)"
  obtains i where "i < length es"
      "s = finished_repo_span (es ! i) cid (U (u + 2 * i)) (T (t + 4 * i)) (T (t + 4 * i + 3))"
  | i where "i < length es"
      "s = finished_agent_span (es ! i) (U (u + 2 * i)) (U (Suc (u + 2 * i)))
              (T (Suc (t + 4 * i))) (T (t + 4 * i + 2))"
  using assms unfolding in_finished_pairs by blast

lemma finished_repo_in_pairs:
  "i < length es \<Longrightarrow>
     finished_repo_span (es ! i) cid (U (u + 2 * i)) (T (t + 4 * i)) (T (t + 4 * i + 3))
       \<in> set (finished_pairs cid U T u t es)"
  unfolding in_finished_pairs by blast

lemma finished_agent_in_pairs:
  "i < length es \<Longrightarrow>
     finished_agent_span (es ! i) (U (u + 2 * i)) (U (Suc (u + 2 * i)))
              (T (Suc (t + 4 * i))) (T (t + 4 * i + 2))
       \<in> set (finished_pairs cid U T u t es)"
  unfolding in_finished_pairs by blast

lemma createCoreSpan_fields [simp]:
  "span_id (fst (createCoreSpan cn p w)) = uuid_source w (uuid_calls w)"
  "span_type (fst (createCoreSpan cn p w)) = Core"
  "parent_span_id (fst (createCoreSpan cn p w)) = p"
  "evidence (fst (createCoreSpan cn p w)) = []"
  "artifacts (fst (createCoreSpan cn p w)) = []"
  "status (fst (createCoreSpan cn p w)) = Running"
  "snd (createCoreSpan cn p w) = w\<lparr>uuid_calls := Suc (uuid_calls w), clock_calls := Suc (clock_calls w)\<rparr>"
  by (simp_all add: createCoreSpan_def generateSpanId_def now_def)

lemma new_ExecutionContext_eq:
  "new_ExecutionContext cn p w =
     (\<lparr>coreSpan = fst (createCoreSpan cn p w), ctx_spans = [fst (createCoreSpan cn p w)]\<rparr>,
      w\<lparr>uuid_calls := Suc (uuid_calls w), clock_calls := Suc (clock_calls w)\<rparr>)"
  by (simp add: new_ExecutionContext_def split_def Let_def)

lemma multi_repo_before_finalize:
  assumes inj: "inj_on (uuid_source w) {uuid_calls w ..< uuid_calls w + (1 + 2 * length es)}"
  shows "multi_repo_loop es (new_ExecutionContext cn p w, [], False) =
           ((\<lparr>coreSpan = fst (createCoreSpan cn p w),
              ctx_spans = fst (createCoreSpan cn p w)
                # finished_pairs (uuid_source w (uuid_calls w)) (uuid_source w) (clock_source w)
                    (Suc (uuid_calls w)) (Suc (clock_calls w)) es\<rparr>,
             w\<lparr>uuid_calls := uuid_calls w + 1 + 2 * length es,
               clock_calls := clock_calls w + 1 + 4 * length es\<rparr>),
            map entry_result es, \<exists>e\<in>set es. isl (fn e))"
proof -
  let ?c0 = "\<lparr>coreSpan = fst (createCoreSpan cn p w), ctx_spans = [fst (createCoreSpan cn p w)]\<rparr>"
  let ?w1 = "w\<lparr>uuid_calls := Suc (uuid_calls w), clock_calls := Suc (clock_calls w)\<rparr>"
  have "inj_on (uuid_source w) {Suc (uuid_calls w) ..< Suc (uuid_calls w) + 2 * length es}"
    by (rule inj_on_subset [OF inj]) auto
  then have i1: "inj_on (uuid_source ?w1) {uuid_calls ?w1 ..< uuid_calls ?w1 + 2 * length es}"
    by simp
  have "uuid_source w j \<noteq> uuid_source w (uuid_calls w)"
    if "j \<in> {Suc (uuid_calls w) ..< Suc (uuid_calls w) + 2 * length es}" for j
    using inj_onD [OF inj, of j "uuid_calls w"] that by auto
  then have "uuid_source w ` {Suc (uuid_calls w) ..< Suc (uuid_calls w) + 2 * length es}
               \<inter> {uuid_source w (uuid_calls w)} = {}"
    by blast
  then have i2: "uuid_source ?w1 ` {uuid_calls ?w1 ..< uuid_calls ?w1 + 2 * length es}
               \<inter> span_id ` set (ctx_spans ?c0) = {}"
    by simp
  from multi_repo_loop_fresh [OF i1 i2, of "[]" False] show ?thesis
    by (simp add: new_ExecutionContext_eq)
qed

lemma pairs_not_core_id:
  assumes inj: "inj_on U {u0 ..< u0 + (1 + 2 * length es)}"
    and s: "s \<in> set (finished_pairs cid U T (Suc u0) t es)"
  shows "span_id s \<noteq> U u0"
  using s
proof (cases rule: finished_pairs_cases)
  case (1 i)
  with inj_onD [OF inj, of "Suc u0 + 2 * i" u0] show ?thesis by auto
next
  case (2 i)
  with inj_onD [OF inj, of "Suc (Suc u0 + 2 * i)" u0] show ?thesis by auto
qed

lemma failed_pairs_empty_iff:
  "filter (\<lambda>s. status s = Failed) (finished_pairs cid U T u t es) = []
     \<longleftrightarrow> (\<forall>e\<in>set es. \<not> isl (fn e))"
  by (induction es arbitrary: u t) auto

lemma failed_children_of_run:
  assumes inj: "inj_on U {u0 ..< u0 + (1 + 2 * length es)}"
    and c0: "span_id c0 = U u0"
  shows "filter (\<lambda>s. span_id s \<noteq> U u0 \<and> status s = Failed)
           (c0 # finished_pairs cid U T (Suc u0) t es)
         = filter (\<lambda>s. status s = Failed) (finished_pairs cid U T (Suc u0) t es)"
  using pairs_not_core_id [OF inj] c0 by (auto intro: filter_cong)

lemma multi_repo_valid:
  assumes fresh: "fresh_ids w (1 + 2 * length es)"
    and ne: "es \<noteq> []"
    and par: "p \<noteq> Some (uuid_source w (uuid_calls w))"
  shows "validateExecutionGraph
           \<lparr>spans = fst (createCoreSpan cn p w)
              # finished_pairs (uuid_source w (uuid_calls w)) (uuid_source w) (clock_source w)
                  (Suc (uuid_calls w)) (Suc (clock_calls w)) es\<rparr> = []"
proof (rule validate_clean)
  let ?U = "uuid_source w" and ?u0 = "uuid_calls w"
  let ?core = "fst (createCoreSpan cn p w)"
  let ?P = "finished_pairs (?U ?u0) ?U (clock_source w) (Suc ?u0) (Suc (clock_calls w)) es"
  note inj = fresh_ids_inj [OF fresh]
  have nonempty: "?U j \<noteq> []" if "?u0 \<le> j" "j < ?u0 + (1 + 2 * length es)" for j
    using fresh_ids_nonempty [OF fresh that] .
  show "\<exists>s\<in>set (?core # ?P). span_type s = Core" by simp
  show "span_id c \<noteq> [] \<and> (\<exists>r\<in>set (?core # ?P). span_type r = Repo \<and> parent_span_id r = Some (span_id c))"
    if "c \<in> set (?core # ?P)" "span_type c = Core" for c
  proof -
    from that have c: "c = ?core"
      by (auto elim!: finished_pairs_cases)
    from ne have "0 < length es" by simp
    from finished_repo_in_pairs [OF this, of "?U ?u0" ?U "Suc ?u0" "clock_source w" "Suc (clock_calls w)"]
    have "\<exists>r\<in>set ?P. span_type r = Repo \<and> parent_span_id r = Some (?U ?u0)"
      by (intro bexI [rotated]) auto
    with nonempty [of ?u0] c show ?thesis by simp
  qed
  show "span_id r \<noteq> [] \<and> (\<exists>a\<in>set (?core # ?P). span_type a = Agent \<and> parent_span_id a = Some (span_id r))"
    if "r \<in> set (?core # ?P)" "span_type r = Repo" for r
  proof -
    from that have "r \<in> set ?P" by auto
    then show ?thesis
    proof (cases rule: finished_pairs_cases)
      case (1 i)
      from finished_agent_in_pairs [OF 1(1), of "?U" "Suc ?u0" "clock_source w" "Suc (clock_calls w)" "?U ?u0"]
      have "\<exists>a\<in>set ?P. span_type a = Agent \<and> parent_span_id a = Some (?U (Suc ?u0 + 2 * i))"
        by (intro bexI [rotated]) auto
      with nonempty [of "Suc ?u0 + 2 * i"] 1 show ?thesis by simp
    next
      case (2 i)
      with that show ?thesis by simp
    qed
  qed
  show "q \<in> span_id ` set (?core # ?P)"
    if "s \<in> set (?core # ?P)" "parent_span_id s = Some q" "span_type s \<noteq> Core" for s q
  proof -
    from that have "s \<in> set ?P" by auto
    then show ?thesis
    proof (cases rule: finished_pairs_cases)
      case (1 i)
      with that show ?thesis by simp
    next
      case (2 i)
      from finished_repo_in_pairs [OF 2(1), of "?U ?u0" ?U "Suc ?u0" "clock_source w" "Suc (clock_calls w)"]
      have "?U (Suc ?u0 + 2 * i) \<in> span_id ` set ?P"
        by (rule rev_image_eqI) simp
      with 2 that show ?thesis by simp
    qed
  qed
  show "parent_span_id s \<noteq> Some (span_id s)" if "s \<in> set (?core # ?P)" for s
  proof (cases "s = ?core")
    case True
    with par show ?thesis by simp
  next
    case False
    with that have "s \<in> set ?P" by simp
    then show ?thesis
    proof (cases rule: finished_pairs_cases)
      case (1 i)
      with inj_onD [OF inj, of ?u0 "Suc ?u0 + 2 * i"] show ?thesis by auto
    next
      case (2 i)
      with inj_onD [OF inj, of "Suc ?u0 + 2 * i" "Suc (Suc ?u0 + 2 * i)"] show ?thesis by auto
    qed
  qed
  show "\<not> blank (evidence_value ev)"
    if "s \<in> set (?core # ?P)" "ev \<in> set (evidence s)" for s ev
  proof -
    from that have "s \<in> set ?P" by auto
    then show ?thesis
      using that(2)
      by (cases rule: finished_pairs_cases)
         (auto simp: finished_agent_span_def completion_evidence_not_blank split: sum.splits)
  qed
  show "\<not> blank (artifact_id a)"
    if "s \<in> set (?core # ?P)" "a \<in> set (artifacts s)" for s a
    using that by (auto elim!: finished_pairs_cases)
qed

lemma multi_repo_result:
  assumes inj: "inj_on (uuid_source w) {uuid_calls w ..< uuid_calls w + (1 + 2 * length es)}"
  shows "fst (executeMultiRepoWithSpans cn p es agg w) =
     (let core0 = fst (createCoreSpan cn p w);
          P = finished_pairs (uuid_source w (uuid_calls w)) (uuid_source w) (clock_source w)
                (Suc (uuid_calls w)) (Suc (clock_calls w)) es;
          c = \<lparr>coreSpan = core0, ctx_spans = core0 # P\<rparr>;
          w' = w\<lparr>uuid_calls := uuid_calls w + 1 + 2 * length es,
                 clock_calls := clock_calls w + 1 + 4 * length es\<rparr>
      in \<lparr>success = (core_level_reasons c = []),
          core_span_id = uuid_source w (uuid_calls w),
          execution_graph = \<lparr>spans = finalized_core c w' # P\<rparr>,
          validation_failures = validateExecutionGraph \<lparr>spans = core0 # P\<rparr>,
          core_failure_reasons = core_level_reasons c,
          result = (if \<exists>e\<in>set es. isl (fn e) then None
                    else (case agg (map entry_result es) of Inr v \<Rightarrow> Some v | Inl err \<Rightarrow> None))\<rparr>)"
proof -
  let ?core0 = "fst (createCoreSpan cn p w)"
  let ?P = "finished_pairs (uuid_source w (uuid_calls w)) (uuid_source w) (clock_source w)
                (Suc (uuid_calls w)) (Suc (clock_calls w)) es"
  let ?c = "\<lparr>coreSpan = ?core0, ctx_spans = ?core0 # ?P\<rparr>"
  let ?w' = "w\<lparr>uuid_calls := uuid_calls w + 1 + 2 * length es,
                 clock_calls := clock_calls w + 1 + 4 * length es\<rparr>"
  have cf: "core_first (fst (?c, ?w'))" by (simp add: core_first_def)
  have sp: "ctx_spans (fst (snd (finalize r (?c, ?w')))) = finalized_core ?c ?w' # ?P" for r :: "'b option"
    using finalize_spans [OF cf, of r] by simp
  note loop = multi_repo_before_finalize [OF inj, of cn p]
  show ?thesis
    by (simp add: executeMultiRepoWithSpans_def split_def Let_def loop finalize_fst sp
        del: One_nat_def)
qed

lemma core_level_reasons_run:
  assumes inj: "inj_on U {u0 ..< u0 + (1 + 2 * length es)}"
    and c0: "span_id c0 = U u0"
  shows "core_level_reasons \<lparr>coreSpan = c0, ctx_spans = c0 # finished_pairs cid U T (Suc u0) t es\<rparr>
     = map format_failure
         (validateExecutionGraph \<lparr>spans = c0 # finished_pairs cid U T (Suc u0) t es\<rparr>)
       @ (if \<forall>e\<in>set es. \<not> isl (fn e) then []
          else [string_of_nat (length (filter (\<lambda>s. status s = Failed)
                                         (finished_pairs cid U T (Suc u0) t es)))
                @ '' child span(s) failed''])"
proof -
  have "other_failed_spans \<lparr>coreSpan = c0, ctx_spans = c0 # finished_pairs cid U T (Suc u0) t es\<rparr>
          = filter (\<lambda>s. status s = Failed) (finished_pairs cid U T (Suc u0) t es)"
    using failed_children_of_run [OF inj c0, of cid T t]
    by (simp add: other_failed_spans_def c0)
  then show ?thesis
    by (simp add: core_level_reasons_def failed_pairs_empty_iff)
qed

lemma executeWithSpans_as_multi:
  "executeWithSpans cn p rn an op f w =
     executeMultiRepoWithSpans cn p
       [\<lparr>repoName = rn, agentName = an, entry_operation = op, fn = f\<rparr>]
       (\<lambda>rs. case hd rs of Some v \<Rightarrow> Inr v | None \<Rightarrow> Inl (OtherThrown [])) w"
  by (cases f)
     (simp_all add: executeWithSpans_def executeMultiRepoWithSpans_def multi_repo_loop_def
        multi_repo_step_def split_def Let_def)

section \<open>Multi-repo runs: outcome\<close>

lemma validate_core_alone:
  "validateExecutionGraph \<lparr>spans = [fst (createCoreSpan cn p w)]\<rparr> =
     \<lparr>vf_span_id = uuid_source w (uuid_calls w), rule = ''core_must_have_repo_children'',
      message = ''Core span '' @ dquote @ cn @ dquote @ '' has no repo-level child spans''\<rparr>
     # (if p = Some (uuid_source w (uuid_calls w)) then
          [\<lparr>vf_span_id = uuid_source w (uuid_calls w), rule = ''no_self_reference'',
            message = ''Span '' @ dquote @ cn @ dquote @ '' references itself as parent''\<rparr>]
        else [])"
  by (cases p)
     (auto simp: validateExecutionGraph_def index_spans_def index_span_def get_children_def
        check_core_def check_repo_def check_parent_def check_self_def check_evidence_def
        check_artifacts_def createCoreSpan_def generateSpanId_def now_def Let_def)

text \<open>
  C3, counterexample. With no entry at all every entry's \<open>fn\<close> resolves and the result
  is the aggregator's value, but the core span has no repo child: the validator reports
  \<open>core_must_have_repo_children\<close> and \<open>success\<close> is false.
\<close>

theorem no_entries_counterexample:
  "length no_entries = 0
   \<and> \<not> success (fst (executeMultiRepoWithSpans ''ecosystem-core'' None no_entries
                       count_aggregator sample_world))
   \<and> result (fst (executeMultiRepoWithSpans ''ecosystem-core'' None no_entries
                     count_aggregator sample_world)) = Some 0
   \<and> map rule (validation_failures (fst (executeMultiRepoWithSpans ''ecosystem-core'' None
                     no_entries count_aggregator sample_world)))
       = [''core_must_have_repo_children'']"
  by code_simp


text \<open>
  C3, as amended. For \<open>executeMultiRepoWithSpans\<close> over \<open>k\<close> entries processed in the
  given order, with fresh identifiers: the returned graph contains exactly \<open>1 + 2k\<close>
  spans, the core span followed by the finished repo and agent span of every entry; the
  spans of an entry whose \<open>fn\<close> resolves are completed; the spans of an entry whose \<open>fn\<close>
  throws are failed, the agent span with the error message and the repo span with the
  message prefixed by \<open>Agent "<agentName>" failed:\<close>, a \<open>null\<close> is recorded in
  \<open>results\<close> for it, and the remaining entries are still processed. If \<open>k \<ge> 1\<close>, every
  entry's \<open>fn\<close> resolves and the external parent id is not the core span's own id, then
  \<open>success\<close> is true and \<open>result\<close> is the aggregator applied to the results in invocation
  order (absent when the aggregator throws). If some entry's \<open>fn\<close> throws then \<open>success\<close>
  is false and \<open>result\<close> is absent. If \<open>k = 0\<close> then \<open>success\<close> is false, whatever the
  names, the parent and the aggregator: the validator reports
  \<open>core_must_have_repo_children\<close> for the core span, followed by \<open>no_self_reference\<close>
  when the external parent id is the core span's own id, and nothing else; \<open>result\<close> is
  still the aggregator applied to the empty results.
\<close>

theorem multi_repo_outcome:
  assumes fresh: "fresh_ids w (1 + 2 * length es)"
  shows "(let res = fst (executeMultiRepoWithSpans cn p es agg w);
              S = spans (execution_graph res) in
          length S = 1 + 2 * length es
        \<and> tl S = finished_pairs (uuid_source w (uuid_calls w)) (uuid_source w) (clock_source w)
                   (Suc (uuid_calls w)) (Suc (clock_calls w)) es
        \<and> (\<forall>i<length es.
              case fn (es ! i) of
                Inr v \<Rightarrow> status (S ! (2 * i + 1)) = Completed \<and> status (S ! (2 * i + 2)) = Completed
              | Inl err \<Rightarrow>
                  status (S ! (2 * i + 1)) = Failed
                  \<and> failure_reasons (S ! (2 * i + 1))
                      = [agent_failed_reason (agentName (es ! i)) (errorMessage err)]
                  \<and> status (S ! (2 * i + 2)) = Failed
                  \<and> failure_reasons (S ! (2 * i + 2)) = [errorMessage err])
        \<and> fst (snd (multi_repo_loop es (new_ExecutionContext cn p w, [], False)))
            = map entry_result es
        \<and> (es \<noteq> [] \<and> (\<forall>e\<in>set es. \<not> isl (fn e)) \<and> p \<noteq> Some (uuid_source w (uuid_calls w))
             \<longrightarrow> success res
                 \<and> result res = (case agg (map entry_result es) of
                                   Inr v \<Rightarrow> Some v | Inl err \<Rightarrow> None))
        \<and> ((\<exists>e\<in>set es. isl (fn e)) \<longrightarrow> \<not> success res \<and> result res = None)
        \<and> (es = [] \<longrightarrow>
              \<not> success res
              \<and> result res = (case agg [] of Inr v \<Rightarrow> Some v | Inl err \<Rightarrow> None)
              \<and> validation_failures res =
                  \<lparr>vf_span_id = uuid_source w (uuid_calls w),
                   rule = ''core_must_have_repo_children'',
                   message = ''Core span '' @ dquote @ cn @ dquote @
                             '' has no repo-level child spans''\<rparr>
                  # (if p = Some (uuid_source w (uuid_calls w)) then
                       [\<lparr>vf_span_id = uuid_source w (uuid_calls w), rule = ''no_self_reference'',
                         message = ''Span '' @ dquote @ cn @ dquote @
                                   '' references itself as parent''\<rparr>]
                     else [])))"
proof -
  let ?res = "fst (executeMultiRepoWithSpans cn p es agg w)"
  let ?S = "spans (execution_graph ?res)"
  let ?core0 = "fst (createCoreSpan cn p w)"
  let ?P = "finished_pairs (uuid_source w (uuid_calls w)) (uuid_source w) (clock_source w)
                (Suc (uuid_calls w)) (Suc (clock_calls w)) es"
  let ?c = "\<lparr>coreSpan = ?core0, ctx_spans = ?core0 # ?P\<rparr>"
  note inj = fresh_ids_inj [OF fresh]
  note R = multi_repo_result [OF inj, of cn p agg]
  have S: "?S = hd ?S # ?P" by (simp add: R Let_def)
  have a: "length ?S = 1 + 2 * length es" by (subst S) simp
  have b: "tl ?S = ?P" by (subst S) simp
  have c: "\<forall>i<length es.
              case fn (es ! i) of
                Inr v \<Rightarrow> status (?S ! (2 * i + 1)) = Completed \<and> status (?S ! (2 * i + 2)) = Completed
              | Inl err \<Rightarrow>
                  status (?S ! (2 * i + 1)) = Failed
                  \<and> failure_reasons (?S ! (2 * i + 1))
                      = [agent_failed_reason (agentName (es ! i)) (errorMessage err)]
                  \<and> status (?S ! (2 * i + 2)) = Failed
                  \<and> failure_reasons (?S ! (2 * i + 2)) = [errorMessage err]"
  proof (intro allI impI)
    fix i assume i: "i < length es"
    have "?S ! (2 * i + 1) = ?P ! (2 * i)" "?S ! (2 * i + 2) = ?P ! Suc (2 * i)"
      by (subst S, simp)+
    with finished_pairs_nth [OF i, where cid = "uuid_source w (uuid_calls w)"
        and U = "uuid_source w" and u = "Suc (uuid_calls w)" and T = "clock_source w"
        and t = "Suc (clock_calls w)"]
    show "case fn (es ! i) of
                Inr v \<Rightarrow> status (?S ! (2 * i + 1)) = Completed \<and> status (?S ! (2 * i + 2)) = Completed
              | Inl err \<Rightarrow>
                  status (?S ! (2 * i + 1)) = Failed
                  \<and> failure_reasons (?S ! (2 * i + 1))
                      = [agent_failed_reason (agentName (es ! i)) (errorMessage err)]
                  \<and> status (?S ! (2 * i + 2)) = Failed
                  \<and> failure_reasons (?S ! (2 * i + 2)) = [errorMessage err]"
      by (simp add: finished_repo_span_def finished_agent_span_def split: sum.splits)
  qed
  have d: "fst (snd (multi_repo_loop es (new_ExecutionContext cn p w, [], False)))
            = map entry_result es"
    by (simp add: multi_repo_before_finalize [OF inj])
  have reasons: "core_level_reasons ?c
     = map format_failure (validateExecutionGraph \<lparr>spans = ?core0 # ?P\<rparr>)
       @ (if \<forall>e\<in>set es. \<not> isl (fn e) then []
          else [string_of_nat (length (filter (\<lambda>s. status s = Failed) ?P))
                @ '' child span(s) failed''])"
    by (rule core_level_reasons_run [OF inj]) simp
  have e: "es \<noteq> [] \<and> (\<forall>e\<in>set es. \<not> isl (fn e)) \<and> p \<noteq> Some (uuid_source w (uuid_calls w))
             \<longrightarrow> success ?res
                 \<and> result ?res = (case agg (map entry_result es) of
                                   Inr v \<Rightarrow> Some v | Inl err \<Rightarrow> None)"
  proof (intro impI, elim conjE)
    assume ne: "es \<noteq> []" and ok: "\<forall>e\<in>set es. \<not> isl (fn e)"
      and par: "p \<noteq> Some (uuid_source w (uuid_calls w))"
    from multi_repo_valid [OF fresh ne par, of cn] ok reasons
    have "core_level_reasons ?c = []" by simp
    with ok show "success ?res
                 \<and> result ?res = (case agg (map entry_result es) of
                                   Inr v \<Rightarrow> Some v | Inl err \<Rightarrow> None)"
      by (simp add: R Let_def)
  qed
  have f: "(\<exists>e\<in>set es. isl (fn e)) \<longrightarrow> \<not> success ?res \<and> result ?res = None"
  proof
    assume bad: "\<exists>e\<in>set es. isl (fn e)"
    with reasons have "core_level_reasons ?c \<noteq> []" by auto
    with bad show "\<not> success ?res \<and> result ?res = None"
      by (simp add: R Let_def)
  qed
  have g: "es = [] \<longrightarrow>
              \<not> success ?res
              \<and> result ?res = (case agg [] of Inr v \<Rightarrow> Some v | Inl err \<Rightarrow> None)
              \<and> validation_failures ?res =
                  \<lparr>vf_span_id = uuid_source w (uuid_calls w),
                   rule = ''core_must_have_repo_children'',
                   message = ''Core span '' @ dquote @ cn @ dquote @
                             '' has no repo-level child spans''\<rparr>
                  # (if p = Some (uuid_source w (uuid_calls w)) then
                       [\<lparr>vf_span_id = uuid_source w (uuid_calls w), rule = ''no_self_reference'',
                         message = ''Span '' @ dquote @ cn @ dquote @
                                   '' references itself as parent''\<rparr>]
                     else [])"
  proof
    assume none: "es = []"
    have vf: "validation_failures ?res = validateExecutionGraph \<lparr>spans = ?core0 # ?P\<rparr>"
      by (simp add: R Let_def)
    have su: "success ?res = (core_level_reasons ?c = [])"
      by (simp add: R Let_def)
    have rs: "result ?res = (if \<exists>e\<in>set es. isl (fn e) then None
                else (case agg (map entry_result es) of Inr v \<Rightarrow> Some v | Inl err \<Rightarrow> None))"
      by (simp add: R Let_def)
    from none reasons validate_core_alone [of cn p w]
    have "core_level_reasons ?c \<noteq> []" by simp
    with none validate_core_alone [of cn p w]
    show "\<not> success ?res
              \<and> result ?res = (case agg [] of Inr v \<Rightarrow> Some v | Inl err \<Rightarrow> None)
              \<and> validation_failures ?res =
                  \<lparr>vf_span_id = uuid_source w (uuid_calls w),
                   rule = ''core_must_have_repo_children'',
                   message = ''Core span '' @ dquote @ cn @ dquote @
                             '' has no repo-level child spans''\<rparr>
                  # (if p = Some (uuid_source w (uuid_calls w)) then
                       [\<lparr>vf_span_id = uuid_source w (uuid_calls w), rule = ''no_self_reference'',
                         message = ''Span '' @ dquote @ cn @ dquote @
                                   '' references itself as parent''\<rparr>]
                     else [])"
      unfolding vf su rs by simp
  qed
  show ?thesis
    unfolding Let_def by (intro conjI a b c d e f g)
qed

theorem multi_repo_outcome_witness:
  "length (spans (execution_graph (fst (executeMultiRepoWithSpans ''ecosystem-core'' None
             overview_entries count_aggregator sample_world)))) = 7
   \<and> map status (tl (spans (execution_graph (fst (executeMultiRepoWithSpans ''ecosystem-core''
             None overview_entries count_aggregator sample_world)))))
       = [Completed, Completed, Failed, Failed, Completed, Completed]
   \<and> \<not> success (fst (executeMultiRepoWithSpans ''ecosystem-core'' None
             overview_entries count_aggregator sample_world))
   \<and> result (fst (executeMultiRepoWithSpans ''ecosystem-core'' None
             overview_entries count_aggregator sample_world)) = None"
proof -
  have h: "fresh_ids sample_world (1 + 2 * length overview_entries)"
    by code_simp
  have bad: "\<exists>e\<in>set overview_entries. isl (fn e)"
    by code_simp
  have st: "map status (finished_pairs (uuid_source sample_world (uuid_calls sample_world))
              (uuid_source sample_world) (clock_source sample_world)
              (Suc (uuid_calls sample_world)) (Suc (clock_calls sample_world)) overview_entries)
            = [Completed, Completed, Failed, Failed, Completed, Completed]"
    by code_simp
  have len: "length overview_entries = 3" by code_simp
  from multi_repo_outcome [OF h, of "''ecosystem-core''" None count_aggregator] bad st len
  show ?thesis by (simp add: Let_def)
qed


text \<open>
  C8, counterexample. With no entry at all and an aggregator that throws, \<open>success\<close> is
  false and the only span, the core span, is failed: the validator reports
  \<open>core_must_have_repo_children\<close>.
\<close>

theorem no_entries_aggregator_throw_counterexample:
  "length no_entries = 0
   \<and> throwing_aggregator (map entry_result no_entries) = Inl (ErrorObject ''aggregation failed'')
   \<and> \<not> success (fst (executeMultiRepoWithSpans ''ecosystem-core'' None no_entries
                       throwing_aggregator sample_world))
   \<and> map status (spans (execution_graph (fst (executeMultiRepoWithSpans ''ecosystem-core'' None
                       no_entries throwing_aggregator sample_world)))) = [Failed]"
  by code_simp

text \<open>
  C8, as amended. For \<open>executeMultiRepoWithSpans\<close> over \<open>k \<ge> 1\<close> entries, with fresh
  identifiers and an external parent id that is not the core span's own id, where every
  entry's \<open>fn\<close> resolves but the aggregator throws on the collected results: no span is
  created for the aggregation failure (the graph has exactly \<open>1 + 2k\<close> spans, all
  completed), the returned \<open>result\<close> is absent, there are no validation failures and no
  failure reasons, and \<open>success\<close> is true.
\<close>

theorem aggregator_throw_outcome:
  assumes fresh: "fresh_ids w (1 + 2 * length es)"
    and ne: "es \<noteq> []"
    and ok: "\<forall>e\<in>set es. \<not> isl (fn e)"
    and par: "p \<noteq> Some (uuid_source w (uuid_calls w))"
    and thr: "agg (map entry_result es) = Inl err"
  shows "(let res = fst (executeMultiRepoWithSpans cn p es agg w);
              S = spans (execution_graph res) in
          length S = 1 + 2 * length es
        \<and> (\<forall>s\<in>set S. status s = Completed)
        \<and> result res = None
        \<and> validation_failures res = []
        \<and> core_failure_reasons res = []
        \<and> success res)"
proof -
  let ?core0 = "fst (createCoreSpan cn p w)"
  let ?P = "finished_pairs (uuid_source w (uuid_calls w)) (uuid_source w) (clock_source w)
                (Suc (uuid_calls w)) (Suc (clock_calls w)) es"
  let ?c = "\<lparr>coreSpan = ?core0, ctx_spans = ?core0 # ?P\<rparr>"
  note inj = fresh_ids_inj [OF fresh]
  note R = multi_repo_result [OF inj, of cn p agg]
  note valid = multi_repo_valid [OF fresh ne par, of cn]
  have "core_level_reasons ?c
     = map format_failure (validateExecutionGraph \<lparr>spans = ?core0 # ?P\<rparr>)
       @ (if \<forall>e\<in>set es. \<not> isl (fn e) then []
          else [string_of_nat (length (filter (\<lambda>s. status s = Failed) ?P))
                @ '' child span(s) failed''])"
    by (rule core_level_reasons_run [OF inj]) simp
  with valid ok have reasons: "core_level_reasons ?c = []" by simp
  have compl: "status s = Completed" if "s \<in> set ?P" for s
    using that ok by (cases rule: finished_pairs_cases) auto
  show ?thesis
    using ok thr compl by (simp add: R Let_def reasons valid finalized_core_def)
qed


theorem aggregator_throw_outcome_witness:
  "length (spans (execution_graph (fst (executeMultiRepoWithSpans ''ecosystem-core'' None
             resolving_entries throwing_aggregator sample_world)))) = 7
   \<and> success (fst (executeMultiRepoWithSpans ''ecosystem-core'' None
             resolving_entries throwing_aggregator sample_world))
   \<and> result (fst (executeMultiRepoWithSpans ''ecosystem-core'' None
             resolving_entries throwing_aggregator sample_world)) = None"
proof -
  have h: "fresh_ids sample_world (1 + 2 * length resolving_entries)"
    by code_simp
  have ne: "resolving_entries \<noteq> []" by code_simp
  have ok: "\<forall>e\<in>set resolving_entries. \<not> isl (fn e)" by code_simp
  have par: "None \<noteq> Some (uuid_source sample_world (uuid_calls sample_world))" by simp
  have thr: "throwing_aggregator (map entry_result resolving_entries)
               = Inl (ErrorObject ''aggregation failed'')"
    by (simp add: throwing_aggregator_def)
  have len: "length resolving_entries = 3" by code_simp
  from aggregator_throw_outcome [where agg = throwing_aggregator and es = resolving_entries
      and w = sample_world and p = None and cn = "''ecosystem-core''"
      and err = "ErrorObject ''aggregation failed''", OF h ne ok par thr] len
  show ?thesis by (simp add: Let_def)
qed


section \<open>Single-operation runs: outcome\<close>

lemma single_entry_inj:
  assumes "distinct (map (uuid_source w) [uuid_calls w ..< uuid_calls w + 3])"
  shows "inj_on (uuid_source w) {uuid_calls w ..< uuid_calls w + (1 + 2 * length [e])}"
proof -
  have eq: "{uuid_calls w ..< uuid_calls w + 3}
              = {uuid_calls w ..< uuid_calls w + (1 + 2 * length [e])}"
  proof -
    have "uuid_calls w + 3 = uuid_calls w + (1 + 2 * length [e])" by simp
    then show ?thesis by (simp only:)
  qed
  from assms have "inj_on (uuid_source w) (set [uuid_calls w ..< uuid_calls w + 3])"
    by (simp only: distinct_map)
  then have "inj_on (uuid_source w) {uuid_calls w ..< uuid_calls w + 3}"
    by (simp only: set_upt)
  then show ?thesis by (simp only: eq)
qed

text \<open>
  C4. For an \<open>fn\<close> that resolves with \<open>v\<close>, with fresh identifiers and an external parent
  id that is not the core span's own id, \<open>executeWithSpans\<close> returns \<open>success = true\<close>, no
  validation failure and no failure reason, \<open>result = v\<close>, and a graph of exactly three
  spans, core, repo and agent in this order, all completed, the repo span under the core
  span and the agent span under the repo span; the agent span carries exactly one
  Evidence entry, of type \<open>id\<close>, with value \<open><repoName>:<operation>:<agentSpanId>\<close> for
  the agent span's own \<open>span_id\<close> and the description
  \<open>Completed <operation> via <agentName>\<close>; the other two spans carry none.
\<close>

theorem single_operation_success:
  assumes fresh: "fresh_ids w 3"
    and par: "p \<noteq> Some (uuid_source w (uuid_calls w))"
  shows "(let res = fst (executeWithSpans cn p rn an op (Inr v) w);
              S = spans (execution_graph res) in
          success res \<and> result res = Some v
        \<and> validation_failures res = [] \<and> core_failure_reasons res = []
        \<and> map span_type S = [Core, Repo, Agent]
        \<and> map status S = [Completed, Completed, Completed]
        \<and> core_span_id res = span_id (S ! 0)
        \<and> map parent_span_id S = [p, Some (span_id (S ! 0)), Some (span_id (S ! 1))]
        \<and> map evidence S =
            [Nil, Nil,
             [\<lparr>evidence_type = EvId,
               evidence_value = utf16 (rn @ '':'' @ op @ '':'' @ span_id (S ! 2)),
               description = ''Completed '' @ op @ '' via '' @ an\<rparr>]])"
proof -
  let ?e = "\<lparr>repoName = rn, agentName = an, entry_operation = op, fn = Inr v\<rparr>"
  let ?agg = "\<lambda>rs. case hd rs of Some v \<Rightarrow> Inr v | None \<Rightarrow> Inl (OtherThrown [])"
  let ?core0 = "fst (createCoreSpan cn p w)"
  let ?P = "finished_pairs (uuid_source w (uuid_calls w)) (uuid_source w) (clock_source w)
                (Suc (uuid_calls w)) (Suc (clock_calls w)) [?e]"
  let ?c = "\<lparr>coreSpan = ?core0, ctx_spans = ?core0 # ?P\<rparr>"
  from fresh have fresh': "fresh_ids w (1 + 2 * length [?e])"
    by (simp add: eval_nat_numeral)
  note inj = fresh_ids_inj [OF fresh']
  note R = multi_repo_result [OF inj, of cn p ?agg]
  have valid: "validateExecutionGraph \<lparr>spans = ?core0 # ?P\<rparr> = []"
    by (rule multi_repo_valid [OF fresh' _ par]) simp
  have "core_level_reasons ?c
     = map format_failure (validateExecutionGraph \<lparr>spans = ?core0 # ?P\<rparr>)
       @ (if \<forall>e\<in>set [?e]. \<not> isl (fn e) then []
          else [string_of_nat (length (filter (\<lambda>s. status s = Failed) ?P))
                @ '' child span(s) failed''])"
    by (rule core_level_reasons_run [OF inj]) simp
  with valid have reasons: "core_level_reasons ?c = []" by simp
  show ?thesis
    using valid reasons unfolding executeWithSpans_as_multi
    by (simp add: R Let_def finalized_core_def finished_repo_span_def
        finished_agent_span_def completion_evidence_def entry_result_def)
qed

theorem single_operation_success_witness:
  "success (fst (executeWithSpans ''ecosystem-core'' (Some ''engine-parent-001'')
             ''marketplace'' ''marketplace-agent'' ''list_artifacts'' (Inr ''items'')
             sample_world))
   \<and> result (fst (executeWithSpans ''ecosystem-core'' (Some ''engine-parent-001'')
             ''marketplace'' ''marketplace-agent'' ''list_artifacts'' (Inr ''items'')
             sample_world)) = Some ''items''
   \<and> map (map evidence_value)
         (map evidence (spans (execution_graph (fst (executeWithSpans ''ecosystem-core''
             (Some ''engine-parent-001'') ''marketplace'' ''marketplace-agent''
             ''list_artifacts'' (Inr ''items'') sample_world)))))
       = [Nil, Nil, [utf16 ''marketplace:list_artifacts:span-2'']]"
proof -
  let ?S = "spans (execution_graph (fst (executeWithSpans ''ecosystem-core''
             (Some ''engine-parent-001'') ''marketplace'' ''marketplace-agent''
             ''list_artifacts'' (Inr ''items'') sample_world)))"
  have h: "fresh_ids sample_world 3" by code_simp
  have par: "Some ''engine-parent-001''
               \<noteq> Some (uuid_source sample_world (uuid_calls sample_world))"
    by code_simp
  have sid: "span_id (?S ! 2) = ''span-2''" by code_simp
  from single_operation_success [OF h par, of "''ecosystem-core''" "''marketplace''"
      "''marketplace-agent''" "''list_artifacts''" "''items''"] sid
  show ?thesis by (simp add: Let_def)
qed

text \<open>
  C2. For an \<open>fn\<close> that throws an error with message \<open>m\<close>, with pairwise distinct
  identifiers, \<open>executeWithSpans\<close> returns a result, not an exception: \<open>success\<close> is
  false, \<open>result\<close> is absent, all three spans are failed, the agent span with the reasons
  \<open>[m]\<close>, the repo span with \<open>[Agent "<agentName>" failed: <m>]\<close>, and the core span with
  the returned failure reasons, which are the formatted validation failures followed by
  the summary entry; the summary counts both failed children, the repo span and the
  agent span, and reads \<open>2 child span(s) failed\<close>.
\<close>

theorem single_operation_failure:
  assumes dist: "distinct (map (uuid_source w) [uuid_calls w ..< uuid_calls w + 3])"
  shows "(let res = fst (executeWithSpans cn p rn an op (Inl err :: thrown + 'r) w);
              S = spans (execution_graph res) in
          \<not> success res \<and> result res = None
        \<and> map span_type S = [Core, Repo, Agent]
        \<and> map status S = [Failed, Failed, Failed]
        \<and> failure_reasons (S ! 2) = [errorMessage err]
        \<and> failure_reasons (S ! 1)
            = [''Agent '' @ dquote @ an @ dquote @ '' failed: '' @ errorMessage err]
        \<and> failure_reasons (S ! 0) = core_failure_reasons res
        \<and> core_failure_reasons res
            = map format_failure (validation_failures res) @ [''2 child span(s) failed''])"
proof -
  let ?e = "\<lparr>repoName = rn, agentName = an, entry_operation = op,
              fn = (Inl err :: thrown + 'r)\<rparr>"
  let ?agg = "\<lambda>rs. case hd rs of Some v \<Rightarrow> Inr v | None \<Rightarrow> Inl (OtherThrown [])"
  let ?core0 = "fst (createCoreSpan cn p w)"
  let ?P = "finished_pairs (uuid_source w (uuid_calls w)) (uuid_source w) (clock_source w)
                (Suc (uuid_calls w)) (Suc (clock_calls w)) [?e]"
  let ?c = "\<lparr>coreSpan = ?core0, ctx_spans = ?core0 # ?P\<rparr>"
  note inj = single_entry_inj [OF dist, of ?e]
  note R = multi_repo_result [OF inj, of cn p ?agg]
  have "core_level_reasons ?c
     = map format_failure (validateExecutionGraph \<lparr>spans = ?core0 # ?P\<rparr>)
       @ (if \<forall>e\<in>set [?e]. \<not> isl (fn e) then []
          else [string_of_nat (length (filter (\<lambda>s. status s = Failed) ?P))
                @ '' child span(s) failed''])"
    by (rule core_level_reasons_run [OF inj]) simp
  then have reasons: "core_level_reasons ?c
     = map format_failure (validateExecutionGraph \<lparr>spans = ?core0 # ?P\<rparr>)
       @ [''2 child span(s) failed'']"
    by (simp add: string_of_nat.simps digit_char_def)
  show ?thesis
    using reasons unfolding executeWithSpans_as_multi
    by (simp add: R Let_def finalized_core_def finished_repo_span_def
        finished_agent_span_def agent_failed_reason_def createCoreSpan_def
        generateSpanId_def now_def)
qed

theorem single_operation_failure_witness:
  "\<not> success (fst (executeWithSpans ''ecosystem-core'' None ''marketplace''
             ''marketplace-agent'' ''list_artifacts''
             (Inl (ErrorObject ''Connection refused'') :: thrown + string) sample_world))
   \<and> failure_reasons (spans (execution_graph (fst (executeWithSpans ''ecosystem-core'' None
             ''marketplace'' ''marketplace-agent'' ''list_artifacts''
             (Inl (ErrorObject ''Connection refused'') :: thrown + string) sample_world))) ! 2)
       = [''Connection refused'']
   \<and> core_failure_reasons (fst (executeWithSpans ''ecosystem-core'' None ''marketplace''
             ''marketplace-agent'' ''list_artifacts''
             (Inl (ErrorObject ''Connection refused'') :: thrown + string) sample_world))
       = [''2 child span(s) failed'']"
proof -
  have h: "distinct (map (uuid_source sample_world)
             [uuid_calls sample_world ..< uuid_calls sample_world + 3])"
    by code_simp
  have vf: "validation_failures (fst (executeWithSpans ''ecosystem-core'' None ''marketplace''
             ''marketplace-agent'' ''list_artifacts''
             (Inl (ErrorObject ''Connection refused'') :: thrown + string) sample_world)) = []"
    by code_simp
  from single_operation_failure [where 'r = string, OF h, of "''ecosystem-core''" None
      "''marketplace''" "''marketplace-agent''" "''list_artifacts''"
      "ErrorObject ''Connection refused''"] vf
  show ?thesis by (simp add: Let_def)
qed

end
